theory Spec2Isabelle
  imports Main
begin

section \<open>The m3gnet command line (src/m3gnet/cli.py)\<close>

text \<open>
  The module defines two handlers, \<open>relax_structure\<close> and \<open>run_md\<close>, and a \<open>main\<close>
  that builds an argparse parser with the sub-commands \<open>relax\<close> and \<open>md\<close> and calls the
  handler the parsed namespace names. Everything numerical is delegated to the
  imported collaborators \<open>Structure\<close>, \<open>Relaxer\<close> and \<open>MolecularDynamics\<close>.

  The embedding keeps the collaborators abstract: a call to one of them is a value of
  the datatype \<open>call\<close>, and a parameter \<open>X\<close> says, for the current state of the world
  (file system, model weights, ...), what the call returns or raises and what the
  world is afterwards. A handler is a function on a state made of that world and of
  the trace of everything it has done so far: the external calls with their results.
  \<open>print\<close> is such a call: \<open>print(s)\<close> runs the \<open>__str__\<close> of the structure and writes
  to standard output, and either can raise.
\<close>

subsection \<open>os.path.splitext\<close>

text \<open>
  \<open>relax_structure\<close> names its output file with \<open>os.path.splitext\<close>. On POSIX this is
  \<open>genericpath._splitext(p, '/', None, '.')\<close>:
  \<^verbatim>\<open>
    sepIndex = p.rfind(sep)
    dotIndex = p.rfind(extsep)
    if dotIndex > sepIndex:
        filenameIndex = sepIndex + 1
        while filenameIndex < dotIndex:
            if p[filenameIndex:filenameIndex+1] != extsep:
                return p[:dotIndex], p[dotIndex:]
            filenameIndex += 1
    return p, p[:0]
  \<close>
\<close>

fun rfind_from :: "char \<Rightarrow> string \<Rightarrow> int \<Rightarrow> int \<Rightarrow> int" where
  "rfind_from c [] i found = found"
| "rfind_from c (x # xs) i found = rfind_from c xs (i + 1) (if x = c then i else found)"

definition rfind :: "string \<Rightarrow> char \<Rightarrow> int" where
  \<comment> \<open>\<open>p.rfind(c)\<close>: the highest index of \<open>c\<close> in \<open>p\<close>, or \<open>-1\<close>.\<close>
  "rfind p c = rfind_from c p 0 (- 1)"

function splitext_loop :: "string \<Rightarrow> int \<Rightarrow> int \<Rightarrow> string \<times> string" where
  "splitext_loop p filenameIndex dotIndex =
     (if filenameIndex < dotIndex then
        (if take 1 (drop (nat filenameIndex) p) \<noteq> ''.''
         then (take (nat dotIndex) p, drop (nat dotIndex) p)
         else splitext_loop p (filenameIndex + 1) dotIndex)
      else (p, []))"
  by pat_completeness auto
termination
  by (relation "measure (\<lambda>(p, filenameIndex, dotIndex). nat (dotIndex - filenameIndex))") auto

declare splitext_loop.simps [simp del]

definition splitext :: "string \<Rightarrow> string \<times> string" where
  "splitext p =
     (let sepIndex = rfind p CHR ''/'';
          dotIndex = rfind p CHR ''.''
      in if dotIndex > sepIndex then splitext_loop p (sepIndex + 1) dotIndex
         else (p, []))"

subsection \<open>Exceptions, external calls, traces\<close>

datatype exn =
    TypeError             \<comment> \<open>raised by the interpreter: iterating over \<open>None\<close>\<close>
  | ExtError string       \<comment> \<open>whatever an external collaborator raises\<close>

text \<open>
  The keyword arguments of \<open>MolecularDynamics(...)\<close>, lines 64 to 72. \<open>'o\<close> is the type
  of the collaborators' objects (structures, relaxers, result dictionaries, drivers),
  \<open>'f\<close> the type of Python floats; the program does no arithmetic with either.
\<close>

record ('o, 'f) md_kwargs =
  kw_atoms :: 'o
  kw_temperature :: "'f option"
  kw_ensemble :: string
  kw_timestep :: 'f
  kw_trajectory :: string
  kw_logfile :: string
  kw_loginterval :: int

datatype ('o, 'f) call =
    FromFile string                   \<comment> \<open>\<open>Structure.from_file(fn)\<close>\<close>
  | RelaxerNew                        \<comment> \<open>\<open>Relaxer()\<close>\<close>
  | Relax 'o 'o                       \<comment> \<open>\<open>relaxer.relax(s)\<close>\<close>
  | GetItem 'o string                 \<comment> \<open>\<open>relax_results["final_structure"]\<close>\<close>
  | ToFile 'o string                  \<comment> \<open>\<open>final_structure.to(filename=...)\<close>\<close>
  | MDNew "('o, 'f) md_kwargs"        \<comment> \<open>\<open>MolecularDynamics(atoms=s, ...)\<close>\<close>
  | MDRun 'o int                      \<comment> \<open>\<open>md.run(steps=...)\<close>\<close>
  | PrintText string                  \<comment> \<open>\<open>print\<close> of a text\<close>
  | PrintObj 'o                       \<comment> \<open>\<open>print\<close> of a structure\<close>

text \<open>
  What argparse itself prints, the help and the usage message of \<open>error\<close>, goes
  through its \<open>_print_message\<close>, which ignores an \<open>OSError\<close> of the stream: these
  two are events that cannot raise.
\<close>

datatype parser_id = TopParser | RelaxParser | MdParser

datatype ('o, 'f) event =
    Call "('o, 'f) call" "exn + 'o"   \<comment> \<open>an external call and what it raised or returned\<close>
  | PrintHelp parser_id               \<comment> \<open>\<open>print_help()\<close> of one of the three parsers\<close>
  | PrintUsage string                 \<comment> \<open>\<open>error(msg)\<close>: usage and message on stderr\<close>

record ('w, 'o, 'f) state =
  world :: 'w
  trace :: "('o, 'f) event list"

type_synonym ('w, 'o, 'f) externals = "('o, 'f) call \<Rightarrow> 'w \<Rightarrow> (exn + 'o) \<times> 'w"

type_synonym ('w, 'o, 'f, 'a) prog = "('w, 'o, 'f) state \<Rightarrow> (exn + 'a) \<times> ('w, 'o, 'f) state"

definition ret :: "'a \<Rightarrow> ('w, 'o, 'f, 'a) prog" where
  "ret x st = (Inr x, st)"

definition raise_exn :: "exn \<Rightarrow> ('w, 'o, 'f, 'a) prog" where
  "raise_exn e st = (Inl e, st)"

definition bind_prog ::
  "('w, 'o, 'f, 'a) prog \<Rightarrow> ('a \<Rightarrow> ('w, 'o, 'f, 'b) prog) \<Rightarrow> ('w, 'o, 'f, 'b) prog" where
  \<comment> \<open>Sequencing: an exception of the first statement skips the rest.\<close>
  "bind_prog m k st = (case m st of (Inl e, st') \<Rightarrow> (Inl e, st') | (Inr x, st') \<Rightarrow> k x st')"

definition perform :: "('w, 'o, 'f) externals \<Rightarrow> ('o, 'f) call \<Rightarrow> ('w, 'o, 'f, 'o) prog" where
  "perform X c st =
     (case X c (world st) of
        (r, w') \<Rightarrow> (r, \<lparr>world = w', trace = trace st @ [Call c r]\<rparr>))"

definition py_print :: "('w, 'o, 'f) externals \<Rightarrow> ('o, 'f) call \<Rightarrow> ('w, 'o, 'f, unit) prog" where
  \<comment> \<open>\<open>print(...)\<close> as a statement: what it returns is dropped.\<close>
  "py_print X c = bind_prog (perform X c) (\<lambda>_. ret ())"

definition when_prog :: "bool \<Rightarrow> ('w, 'o, 'f, unit) prog \<Rightarrow> ('w, 'o, 'f, unit) prog" where
  "when_prog b m = (if b then m else ret ())"

fun for_each :: "('a \<Rightarrow> ('w, 'o, 'f, unit) prog) \<Rightarrow> 'a list \<Rightarrow> ('w, 'o, 'f, unit) prog" where
  "for_each body [] st = (Inr (), st)"
| "for_each body (x # xs) st =
     (case body x st of
        (Inl e, st') \<Rightarrow> (Inl e, st')
      | (Inr u, st') \<Rightarrow> for_each body xs st')"

subsection \<open>The namespaces of the two sub-commands\<close>

record cli_args =
  infile :: "string list option"
  verbose :: bool

record relax_args = cli_args +
  suffix :: "string option"
  outfile :: "string option"

record 'f md_args = cli_args +
  temp :: "'f option"
  ensemble :: string
  timestep :: 'f
  trajectory :: string
  logfile :: string
  loginterval :: int
  nsteps :: int

subsection \<open>relax_structure, lines 18 to 48\<close>

fun truthy :: "string option \<Rightarrow> bool" where
  \<comment> \<open>\<open>if args.suffix:\<close> is false for \<open>None\<close> and for the empty string.\<close>
  "truthy None = False"
| "truthy (Some s) = (s \<noteq> [])"

definition announce ::
  "('w, 'o, 'f) externals \<Rightarrow> bool \<Rightarrow> 'o \<Rightarrow> string \<Rightarrow> ('w, 'o, 'f, unit) prog" where
  \<comment> \<open>Lines 28 to 31 and 60 to 63: \<open>if args.verbose:\<close> and three prints.\<close>
  "announce X v s doing =
     when_prog v
       (bind_prog (py_print X (PrintText ''Starting structure'')) (\<lambda>_.
        bind_prog (py_print X (PrintObj s)) (\<lambda>_.
        py_print X (PrintText doing))))"

definition write_result ::
  "('w, 'o, 'f) externals \<Rightarrow> relax_args \<Rightarrow> string \<Rightarrow> 'o \<Rightarrow> ('w, 'o, 'f, unit) prog" where
  \<comment> \<open>Lines 36 to 46.\<close>
  "write_result X args fn final_structure =
     (if truthy (suffix args) then
        (case splitext fn of
           (basename, ext) \<Rightarrow>
             (let outfn = basename @ the (suffix args) @ ext in
              bind_prog (perform X (ToFile final_structure outfn)) (\<lambda>_.
              py_print X (PrintText (''Structure written to '' @ outfn @ ''!'')))))
      else if outfile args \<noteq> None then
        bind_prog (perform X (ToFile final_structure (the (outfile args)))) (\<lambda>_.
        py_print X (PrintText (''Structure written to '' @ the (outfile args) @ ''!'')))
      else
        bind_prog (py_print X (PrintText ''Final structure'')) (\<lambda>_.
        py_print X (PrintObj final_structure)))"

definition relax_file ::
  "('w, 'o, 'f) externals \<Rightarrow> relax_args \<Rightarrow> string \<Rightarrow> ('w, 'o, 'f, unit) prog" where
  \<comment> \<open>The body of the loop of line 25.\<close>
  "relax_file X args fn =
     bind_prog (perform X (FromFile fn)) (\<lambda>s.
     bind_prog (announce X (verbose args) s ''Relaxing...'') (\<lambda>_.
     bind_prog (perform X RelaxerNew) (\<lambda>relaxer.
     bind_prog (perform X (Relax relaxer s)) (\<lambda>relax_results.
     bind_prog (perform X (GetItem relax_results ''final_structure'')) (\<lambda>final_structure.
     write_result X args fn final_structure)))))"

definition relax_structure ::
  "('w, 'o, 'f) externals \<Rightarrow> relax_args \<Rightarrow> ('w, 'o, 'f, int) prog" where
  "relax_structure X args =
     (case infile args of
        None \<Rightarrow> raise_exn TypeError
      | Some fns \<Rightarrow> bind_prog (for_each (relax_file X args) fns) (\<lambda>_. ret 0))"

subsection \<open>run_md, lines 51 to 76\<close>

definition md_kwargs_of :: "'f md_args \<Rightarrow> 'o \<Rightarrow> ('o, 'f) md_kwargs" where
  \<comment> \<open>Lines 65 to 71.\<close>
  "md_kwargs_of args s =
     \<lparr>kw_atoms = s,
      kw_temperature = temp args,
      kw_ensemble = ensemble args,
      kw_timestep = timestep args,
      kw_trajectory = trajectory args,
      kw_logfile = logfile args,
      kw_loginterval = loginterval args\<rparr>"

definition md_file ::
  "('w, 'o, 'f) externals \<Rightarrow> 'f md_args \<Rightarrow> string \<Rightarrow> ('w, 'o, 'f, unit) prog" where
  \<comment> \<open>The body of the loop of line 57.\<close>
  "md_file X args fn =
     bind_prog (perform X (FromFile fn)) (\<lambda>s.
     bind_prog (announce X (verbose args) s ''Running MD...'') (\<lambda>_.
     bind_prog (perform X (MDNew (md_kwargs_of args s))) (\<lambda>md.
     bind_prog (perform X (MDRun md (nsteps args))) (\<lambda>_.
     ret ()))))"

definition run_md ::
  "('w, 'o, 'f) externals \<Rightarrow> 'f md_args \<Rightarrow> ('w, 'o, 'f, int) prog" where
  "run_md X args =
     (case infile args of
        None \<Rightarrow> raise_exn TypeError
      | Some fns \<Rightarrow> bind_prog (for_each (md_file X args) fns) (\<lambda>_. ret 0))"

subsection \<open>The parser built by main, lines 83 to 215\<close>

text \<open>
  argparse itself is library code. The model starts where its tokeniser ends: a
  command line is the sub-command and the sequence of occurrences of the declared
  options, each with the argument strings it consumed, in the order given. What the
  declarations of lines 92 to 215 fix is modelled: the destinations and defaults,
  \<open>nargs="+"\<close>, \<open>action="store_true"\<close>, the \<open>type\<close> conversions, \<open>required=True\<close>, the
  mutually exclusive group and \<open>set_defaults(func=...)\<close>; and, since no parser is
  built with \<open>add_help=False\<close>, the option \<open>-h/--help\<close> of each of the three parsers,
  which prints the help and exits with status 0 at the moment it is met. Tokens that
  are no occurrence of an option (which the parser rejects) are outside the model.
\<close>

datatype relax_opt =
    R_h                    \<comment> \<open>\<open>-h/--help\<close>\<close>
  | R_i "string list"      \<comment> \<open>\<open>-i/--infile\<close>, \<open>nargs="+"\<close>\<close>
  | R_v                    \<comment> \<open>\<open>-v/--verbose\<close>\<close>
  | R_s string             \<comment> \<open>\<open>-s/--suffix\<close>\<close>
  | R_o string             \<comment> \<open>\<open>-o/--outfile\<close>\<close>

datatype md_opt =
    M_h                    \<comment> \<open>\<open>-h/--help\<close>\<close>
  | M_i "string list"      \<comment> \<open>\<open>-i/--infile\<close>, \<open>nargs="+"\<close>\<close>
  | M_v                    \<comment> \<open>\<open>-v/--verbose\<close>\<close>
  | M_t string             \<comment> \<open>\<open>-t/--temp\<close>\<close>
  | M_e string             \<comment> \<open>\<open>-e/--ensemble\<close>\<close>
  | M_dt string            \<comment> \<open>\<open>-dt/--timestep\<close>\<close>
  | M_traj string          \<comment> \<open>\<open>--traj\<close>\<close>
  | M_log string           \<comment> \<open>\<open>--log\<close>\<close>
  | M_loginterval string   \<comment> \<open>\<open>--loginterval\<close>\<close>
  | M_n string             \<comment> \<open>\<open>-n/--nsteps\<close>\<close>

datatype argv =
    TopHelp                  \<comment> \<open>\<open>-h\<close> before any sub-command\<close>
  | NoSubcommand             \<comment> \<open>nothing at all\<close>
  | RelaxCmd "relax_opt list"
  | MdCmd "md_opt list"

datatype stop =
    UsageError string        \<comment> \<open>\<open>parser.error(msg)\<close>: usage message, exit status 2\<close>
  | HelpRequested parser_id  \<comment> \<open>\<open>-h\<close>: help, exit status 0\<close>

text \<open>
  The conversions \<open>type=float\<close> and \<open>type=int\<close> are Python's \<open>float(str)\<close> and
  \<open>int(str)\<close> (\<open>None\<close> where they raise \<open>ValueError\<close>); \<open>py_repr\<close> is \<open>repr\<close> on
  strings, which argparse's \<open>%r\<close> puts the rejected value through; \<open>lit_2_0\<close> is the
  float literal \<open>2.0\<close> of line 174.
\<close>

record 'f pylib =
  py_float :: "string \<Rightarrow> 'f option"
  py_int :: "string \<Rightarrow> int option"
  py_repr :: "string \<Rightarrow> string"
  lit_2_0 :: 'f

definition relax_defaults :: relax_args where
  "relax_defaults = \<lparr>infile = None, verbose = False, suffix = None, outfile = None\<rparr>"

definition md_defaults :: "'f pylib \<Rightarrow> 'f md_args" where
  "md_defaults L =
     \<lparr>infile = None, verbose = False, temp = None, ensemble = ''nvt'',
      timestep = lit_2_0 L, trajectory = ''md.traj'', logfile = ''md.log'',
      loginterval = 100, nsteps = 1000\<rparr>"

fun relax_dest :: "relax_opt \<Rightarrow> string" where
  "relax_dest R_h = ''help''"
| "relax_dest (R_i fs) = ''infile''"
| "relax_dest R_v = ''verbose''"
| "relax_dest (R_s x) = ''suffix''"
| "relax_dest (R_o x) = ''outfile''"

fun md_dest :: "md_opt \<Rightarrow> string" where
  "md_dest M_h = ''help''"
| "md_dest (M_i fs) = ''infile''"
| "md_dest M_v = ''verbose''"
| "md_dest (M_t x) = ''temp''"
| "md_dest (M_e x) = ''ensemble''"
| "md_dest (M_dt x) = ''timestep''"
| "md_dest (M_traj x) = ''trajectory''"
| "md_dest (M_log x) = ''logfile''"
| "md_dest (M_loginterval x) = ''loginterval''"
| "md_dest (M_n x) = ''nsteps''"

text \<open>
  One occurrence of an option: argparse converts the argument strings, checks the
  mutually exclusive group against the options seen before, and stores the value;
  \<open>-h\<close> stops the parse. The second component of the state is the set of
  destinations seen so far.
\<close>

fun relax_take ::
  "relax_opt \<Rightarrow> relax_args \<times> string set \<Rightarrow> stop + relax_args \<times> string set" where
  "relax_take R_h (ns, seen) = Inl (HelpRequested RelaxParser)"
| "relax_take (R_i fs) (ns, seen) =
     (if fs = [] then Inl (UsageError ''argument -i/--infile: expected at least one argument'')
      else Inr (ns\<lparr>infile := Some fs\<rparr>, insert ''infile'' seen))"
| "relax_take R_v (ns, seen) = Inr (ns\<lparr>verbose := True\<rparr>, insert ''verbose'' seen)"
| "relax_take (R_s x) (ns, seen) =
     (if ''outfile'' \<in> seen
      then Inl (UsageError ''argument -s/--suffix: not allowed with argument -o/--outfile'')
      else Inr (ns\<lparr>suffix := Some x\<rparr>, insert ''suffix'' seen))"
| "relax_take (R_o x) (ns, seen) =
     (if ''suffix'' \<in> seen
      then Inl (UsageError ''argument -o/--outfile: not allowed with argument -s/--suffix'')
      else Inr (ns\<lparr>outfile := Some x\<rparr>, insert ''outfile'' seen))"

fun md_take ::
  "'f pylib \<Rightarrow> md_opt \<Rightarrow> 'f md_args \<times> string set \<Rightarrow> stop + 'f md_args \<times> string set" where
  "md_take L M_h (ns, seen) = Inl (HelpRequested MdParser)"
| "md_take L (M_i fs) (ns, seen) =
     (if fs = [] then Inl (UsageError ''argument -i/--infile: expected at least one argument'')
      else Inr (ns\<lparr>infile := Some fs\<rparr>, insert ''infile'' seen))"
| "md_take L M_v (ns, seen) = Inr (ns\<lparr>verbose := True\<rparr>, insert ''verbose'' seen)"
| "md_take L (M_t x) (ns, seen) =
     (case py_float L x of
        None \<Rightarrow> Inl (UsageError (''argument -t/--temp: invalid float value: '' @ py_repr L x))
      | Some v \<Rightarrow> Inr (ns\<lparr>temp := Some v\<rparr>, insert ''temp'' seen))"
| "md_take L (M_e x) (ns, seen) = Inr (ns\<lparr>ensemble := x\<rparr>, insert ''ensemble'' seen)"
| "md_take L (M_dt x) (ns, seen) =
     (case py_float L x of
        None \<Rightarrow> Inl (UsageError (''argument -dt/--timestep: invalid float value: '' @ py_repr L x))
      | Some v \<Rightarrow> Inr (ns\<lparr>timestep := v\<rparr>, insert ''timestep'' seen))"
| "md_take L (M_traj x) (ns, seen) = Inr (ns\<lparr>trajectory := x\<rparr>, insert ''trajectory'' seen)"
| "md_take L (M_log x) (ns, seen) = Inr (ns\<lparr>logfile := x\<rparr>, insert ''logfile'' seen)"
| "md_take L (M_loginterval x) (ns, seen) =
     (case py_int L x of
        None \<Rightarrow> Inl (UsageError (''argument --loginterval: invalid int value: '' @ py_repr L x))
      | Some v \<Rightarrow> Inr (ns\<lparr>loginterval := v\<rparr>, insert ''loginterval'' seen))"
| "md_take L (M_n x) (ns, seen) =
     (case py_int L x of
        None \<Rightarrow> Inl (UsageError (''argument -n/--nsteps: invalid int value: '' @ py_repr L x))
      | Some v \<Rightarrow> Inr (ns\<lparr>nsteps := v\<rparr>, insert ''nsteps'' seen))"

fun take_all :: "('opt \<Rightarrow> 's \<Rightarrow> stop + 's) \<Rightarrow> 'opt list \<Rightarrow> 's \<Rightarrow> stop + 's" where
  "take_all f [] s = Inr s"
| "take_all f (x # xs) s = (case f x s of Inl e \<Rightarrow> Inl e | Inr s' \<Rightarrow> take_all f xs s')"

text \<open>
  After the last occurrence argparse lists the required options that were not seen,
  in the order of their declaration.
\<close>

definition missing :: "(string \<times> string) list \<Rightarrow> string set \<Rightarrow> string list" where
  "missing required seen = map snd (filter (\<lambda>(dest, name). dest \<notin> seen) required)"

fun join :: "string list \<Rightarrow> string" where
  "join [] = []"
| "join [x] = x"
| "join (x # y # ys) = x @ '', '' @ join (y # ys)"

definition check_required :: "(string \<times> string) list \<Rightarrow> 'ns \<times> string set \<Rightarrow> stop + 'ns" where
  "check_required required r =
     (case r of (ns, seen) \<Rightarrow>
        if missing required seen = [] then Inr ns
        else Inl (UsageError
               (''the following arguments are required: '' @ join (missing required seen))))"

definition relax_required :: "(string \<times> string) list" where
  "relax_required = [(''infile'', ''-i/--infile'')]"

definition md_required :: "(string \<times> string) list" where
  "md_required =
     [(''infile'', ''-i/--infile''), (''temp'', ''-t/--temp''), (''ensemble'', ''-e/--ensemble''),
      (''timestep'', ''-dt/--timestep''), (''nsteps'', ''-n/--nsteps'')]"

definition parse_relax :: "relax_opt list \<Rightarrow> stop + relax_args" where
  "parse_relax opts =
     (case take_all relax_take opts (relax_defaults, {}) of
        Inl e \<Rightarrow> Inl e
      | Inr r \<Rightarrow> check_required relax_required r)"

definition parse_md :: "'f pylib \<Rightarrow> md_opt list \<Rightarrow> stop + 'f md_args" where
  "parse_md L opts =
     (case take_all (md_take L) opts (md_defaults L, {}) of
        Inl e \<Rightarrow> Inl e
      | Inr r \<Rightarrow> check_required md_required r)"

text \<open>
  The namespace \<open>parse_args\<close> returns. With no sub-command it has no attribute at all;
  each sub-parser adds its destinations and, by \<open>set_defaults\<close>, its handler as \<open>func\<close>.
\<close>

datatype 'f namespace =
    EmptyNS
  | RelaxNS relax_args       \<comment> \<open>\<open>func = relax_structure\<close>\<close>
  | MdNS "'f md_args"        \<comment> \<open>\<open>func = run_md\<close>\<close>

fun parse_args :: "'f pylib \<Rightarrow> argv \<Rightarrow> stop + 'f namespace" where
  "parse_args L TopHelp = Inl (HelpRequested TopParser)"
| "parse_args L NoSubcommand = Inr EmptyNS"
| "parse_args L (RelaxCmd opts) =
     (case parse_relax opts of Inl e \<Rightarrow> Inl e | Inr a \<Rightarrow> Inr (RelaxNS a))"
| "parse_args L (MdCmd opts) =
     (case parse_md L opts of Inl e \<Rightarrow> Inl e | Inr a \<Rightarrow> Inr (MdNS a))"

subsection \<open>main, lines 217 to 224\<close>

datatype outcome =
    Returned int        \<comment> \<open>\<open>main\<close> returns what the handler returned\<close>
  | SystemExit int      \<comment> \<open>\<open>sys.exit(code)\<close>; argparse's \<open>error\<close> exits with 2, its help with 0\<close>
  | Uncaught exn        \<comment> \<open>an exception leaves \<open>main\<close>\<close>

fun exit_status :: "stop \<Rightarrow> int" where
  "exit_status (UsageError msg) = 2"
| "exit_status (HelpRequested p) = 0"

fun stop_event :: "stop \<Rightarrow> ('o, 'f) event" where
  "stop_event (UsageError msg) = PrintUsage msg"
| "stop_event (HelpRequested p) = PrintHelp p"

definition finish :: "(exn + int) \<times> ('w, 'o, 'f) state \<Rightarrow> outcome \<times> ('w, 'o, 'f) state" where
  "finish r = (case r of (Inl e, st') \<Rightarrow> (Uncaught e, st') | (Inr code, st') \<Rightarrow> (Returned code, st'))"

definition main ::
  "('w, 'o, 'f) externals \<Rightarrow> 'f pylib \<Rightarrow> argv \<Rightarrow> ('w, 'o, 'f) state \<Rightarrow> outcome \<times> ('w, 'o, 'f) state" where
  "main X L av st =
     (case parse_args L av of
        Inl e \<Rightarrow>
          \<comment> \<open>argparse has printed and left: \<open>parse_args\<close> does not return\<close>
          (SystemExit (exit_status e), \<lparr>world = world st, trace = trace st @ [stop_event e]\<rparr>)
      | Inr EmptyNS \<Rightarrow>
          \<comment> \<open>no attribute \<open>func\<close>: \<open>getattr\<close> raises \<open>AttributeError\<close>\<close>
          (SystemExit (- 1), \<lparr>world = world st, trace = trace st @ [PrintHelp TopParser]\<rparr>)
      | Inr (RelaxNS args) \<Rightarrow> finish (relax_structure X args st)
      | Inr (MdNS args) \<Rightarrow> finish (run_md X args st))"

section \<open>Reading and specifying runs\<close>

subsection \<open>Reading a trace\<close>

text \<open>
  The claims speak of what a run did. These functions read it off the trace: the
  events a run added, the prints among them and the other calls, the files loaded
  and the output actions, the objects written, and whether a call raised.
\<close>

definition new_events :: "('w, 'o, 'f) state \<Rightarrow> ('w, 'o, 'f) state \<Rightarrow> ('o, 'f) event list" where
  "new_events st st' = drop (length (trace st)) (trace st')"

fun is_print_call :: "('o, 'f) call \<Rightarrow> bool" where
  "is_print_call (PrintText t) = True"
| "is_print_call (PrintObj s) = True"
| "is_print_call c = False"

fun is_print :: "('o, 'f) event \<Rightarrow> bool" where
  "is_print (Call c r) = is_print_call c"
| "is_print ev = False"

definition calls_of :: "('o, 'f) event list \<Rightarrow> ('o, 'f) event list" where
  \<comment> \<open>The events that are not prints.\<close>
  "calls_of evs = filter (\<lambda>ev. \<not> is_print ev) evs"

text \<open>
  An output action of \<open>relax_structure\<close> is a completed \<open>final_structure.to(filename=p)\<close>
  or the console output of lines 45 and 46, which is the only place that prints the
  header \<open>Final structure\<close>.
\<close>

datatype target = Console | Path string

datatype io = Loaded string | Output target

fun io_of :: "('o, 'f) event \<Rightarrow> io option" where
  "io_of (Call (FromFile fn) (Inr s)) = Some (Loaded fn)"
| "io_of (Call (ToFile s p) (Inr r)) = Some (Output (Path p))"
| "io_of (Call (PrintText t) (Inr r)) =
     (if t = ''Final structure'' then Some (Output Console) else None)"
| "io_of ev = None"

fun skeleton :: "('o, 'f) event list \<Rightarrow> io list" where
  "skeleton [] = []"
| "skeleton (ev # evs) = (case io_of ev of None \<Rightarrow> skeleton evs | Some x \<Rightarrow> x # skeleton evs)"

fun outputs :: "io list \<Rightarrow> target list" where
  "outputs [] = []"
| "outputs (Output t # xs) = t # outputs xs"
| "outputs (Loaded fn # xs) = outputs xs"

definition target_of :: "relax_args \<Rightarrow> string \<Rightarrow> target" where
  \<comment> \<open>Where the branch of lines 36 to 46 sends the result for the input \<open>fn\<close>.\<close>
  "target_of args fn =
     (if truthy (suffix args)
      then Path (fst (splitext fn) @ the (suffix args) @ snd (splitext fn))
      else if outfile args \<noteq> None then Path (the (outfile args))
      else Console)"



definition status_prints :: "bool \<Rightarrow> 'o \<Rightarrow> string \<Rightarrow> ('o, 'f) call list" where
  "status_prints v s doing =
     (if v then [PrintText ''Starting structure'', PrintObj s, PrintText doing] else [])"

definition output_action :: "relax_args \<Rightarrow> string \<Rightarrow> 'o \<Rightarrow> ('o, 'f) call list" where
  "output_action args fn fs =
     (case target_of args fn of
        Path p \<Rightarrow> [ToFile fs p, PrintText (''Structure written to '' @ p @ ''!'')]
      | Console \<Rightarrow> [PrintText ''Final structure'', PrintObj fs])"



text \<open>
  The objects written with their paths, the final structures obtained, and the paths
  of all the writes attempted.
\<close>

fun write_of :: "('o, 'f) event \<Rightarrow> ('o \<times> string) option" where
  "write_of (Call (ToFile fs p) (Inr r)) = Some (fs, p)"
| "write_of ev = None"


definition writes_of :: "('o, 'f) event list \<Rightarrow> ('o \<times> string) list" where
  "writes_of evs = List.map_filter write_of evs"



fun raised_by :: "('o, 'f) event \<Rightarrow> exn option" where
  "raised_by (Call c (Inl e)) = Some e"
| "raised_by ev = None"

definition failure_free :: "('o, 'f) event list \<Rightarrow> bool" where
  "failure_free evs = list_all (\<lambda>ev. raised_by ev = None) evs"

fun stops_at_failure :: "('o, 'f) event list \<Rightarrow> exn + 'a \<Rightarrow> bool" where
  \<comment> \<open>A run that returns saw no external call raise; a run that raises \<open>e\<close> ends with
      the external call that raised \<open>e\<close>, the first one to raise.\<close>
  "stops_at_failure evs (Inr x) = failure_free evs"
| "stops_at_failure evs (Inl e) =
     (evs \<noteq> [] \<and> raised_by (last evs) = Some e \<and> failure_free (butlast evs))"





text \<open>
  A run with \<open>verbose\<close> set is compared with a silent one by \<open>adds_prints_only\<close>:
  the second trace is the first with prints inserted and nothing else changed.
  \<open>silent_prints\<close> says of the environment that a print always returns and leaves
  the world as it was.
\<close>

definition silent_prints :: "('w, 'o, 'f) externals \<Rightarrow> bool" where
  "silent_prints X =
     ((\<forall>t w. \<exists>r. X (PrintText t) w = (Inr r, w)) \<and>
      (\<forall>s w. \<exists>r. X (PrintObj s) w = (Inr r, w)))"

fun adds_prints_only :: "('o, 'f) event list \<Rightarrow> ('o, 'f) event list \<Rightarrow> bool" where
  "adds_prints_only [] ys = list_all is_print ys"
| "adds_prints_only (x # xs) [] = False"
| "adds_prints_only (x # xs) (y # ys) =
     ((x = y \<and> adds_prints_only xs ys) \<or> (is_print y \<and> adds_prints_only (x # xs) ys))"











subsection \<open>Predicates used in the proofs\<close>

text \<open>
  The invariants of the parser's passes over the options: a destination that was seen
  holds the converted value of one of the occurrences given, a destination that was
  not seen still holds its default, and \<open>suffix\<close> and \<open>outfile\<close> are never both seen.
\<close>

definition relax_inv :: "relax_opt list \<Rightarrow> relax_args \<times> string set \<Rightarrow> bool" where
  "relax_inv opts r =
     (case r of (ns, seen) \<Rightarrow>
        (''infile'' \<in> seen \<longrightarrow> (\<exists>fs. R_i fs \<in> set opts \<and> fs \<noteq> [] \<and> infile ns = Some fs)) \<and>
        (''suffix'' \<notin> seen \<longrightarrow> suffix ns = None) \<and>
        (''outfile'' \<notin> seen \<longrightarrow> outfile ns = None) \<and>
        (''suffix'' \<in> seen \<longrightarrow> (\<exists>x. R_s x \<in> set opts \<and> suffix ns = Some x)) \<and>
        (''outfile'' \<in> seen \<longrightarrow> (\<exists>x. R_o x \<in> set opts \<and> outfile ns = Some x)) \<and>
        \<not> (''suffix'' \<in> seen \<and> ''outfile'' \<in> seen))"

definition md_inv :: "'f pylib \<Rightarrow> md_opt list \<Rightarrow> 'f md_args \<times> string set \<Rightarrow> bool" where
  "md_inv L opts r =
     (case r of (ns, seen) \<Rightarrow>
        (''infile'' \<in> seen \<longrightarrow> (\<exists>fs. M_i fs \<in> set opts \<and> fs \<noteq> [] \<and> infile ns = Some fs)) \<and>
        (''temp'' \<in> seen \<longrightarrow> (\<exists>x v. M_t x \<in> set opts \<and> py_float L x = Some v \<and> temp ns = Some v)) \<and>
        (''ensemble'' \<in> seen \<longrightarrow> M_e (ensemble ns) \<in> set opts) \<and>
        (''timestep'' \<in> seen \<longrightarrow> (\<exists>x. M_dt x \<in> set opts \<and> py_float L x = Some (timestep ns))) \<and>
        (''nsteps'' \<in> seen \<longrightarrow> (\<exists>x. M_n x \<in> set opts \<and> py_int L x = Some (nsteps ns))) \<and>
        (''trajectory'' \<in> seen \<longrightarrow> M_traj (trajectory ns) \<in> set opts) \<and>
        (''trajectory'' \<notin> seen \<longrightarrow> trajectory ns = ''md.traj'') \<and>
        (''logfile'' \<in> seen \<longrightarrow> M_log (logfile ns) \<in> set opts) \<and>
        (''logfile'' \<notin> seen \<longrightarrow> logfile ns = ''md.log'') \<and>
        (''loginterval'' \<in> seen \<longrightarrow>
           (\<exists>x. M_loginterval x \<in> set opts \<and> py_int L x = Some (loginterval ns))) \<and>
        (''loginterval'' \<notin> seen \<longrightarrow> loginterval ns = 100))"


text \<open>
  \<open>performed cs evs\<close>: the events are the calls \<open>cs\<close>, in this order, and each
  returned.
\<close>

fun performed :: "('o, 'f) call list \<Rightarrow> ('o, 'f) event list \<Rightarrow> bool" where
  "performed [] evs = (evs = [])"
| "performed (c # cs) [] = False"
| "performed (c # cs) (ev # evs) = ((\<exists>r. ev = Call c (Inr r)) \<and> performed cs evs)"

text \<open>
  The events of one pass of each loop body that returns.
\<close>

definition relax_file_events ::
  "relax_args \<Rightarrow> string \<Rightarrow> ('o, 'f) event list \<Rightarrow> bool" where
  "relax_file_events args fn evs =
     (\<exists>s relaxer results fs pre out.
        evs = Call (FromFile fn) (Inr s) # pre @
              [Call RelaxerNew (Inr relaxer), Call (Relax relaxer s) (Inr results),
               Call (GetItem results ''final_structure'') (Inr fs)] @ out \<and>
        performed (status_prints (verbose args) s ''Relaxing...'') pre \<and>
        performed (output_action args fn fs) out)"


text \<open>
  Four properties of a program: \<open>propagates\<close> (it only appends to the trace, and
  stops at the first external call that raises, with that exception), \<open>returns\<close>
  (it never raises), \<open>emits P\<close> (every event it appends satisfies \<open>P\<close>) and \<open>agree\<close>
  (two programs started in states that differ in prints only give the same result and
  end in such states).
\<close>

definition propagates :: "('w, 'o, 'f, 'a) prog \<Rightarrow> bool" where
  "propagates m =
     (\<forall>st res st'. m st = (res, st') \<longrightarrow>
        (\<exists>evs. trace st' = trace st @ evs \<and> stops_at_failure evs res))"



definition quieter :: "('w, 'o, 'f) state \<Rightarrow> ('w, 'o, 'f) state \<Rightarrow> bool" where
  "quieter s t = (world s = world t \<and> adds_prints_only (trace s) (trace t))"

definition agree :: "('w, 'o, 'f, 'a) prog \<Rightarrow> ('w, 'o, 'f, 'a) prog \<Rightarrow> bool" where
  "agree m1 m2 =
     (\<forall>s t. quieter s t \<longrightarrow> fst (m1 s) = fst (m2 t) \<and> quieter (snd (m1 s)) (snd (m2 t)))"

subsection \<open>Environments to run the model in\<close>

text \<open>
  In \<open>ex_X\<close> the world counts the calls, other than prints, that returned; each call
  returns an object named after its arguments, a print returns \<open>None\<close>, and loading
  the file \<open>missing.cif\<close> raises. In \<open>ex_X_pipe\<close> standard output is a closed pipe:
  every print raises. A float is represented by the text it was read from.
\<close>

definition ex_lib :: "string pylib" where
  "ex_lib = \<lparr>py_float = (\<lambda>x. if x = [] then None else Some x),
             py_int = (\<lambda>x. if x = ''10'' then Some 10 else if x = ''5'' then Some 5 else None),
             py_repr = (\<lambda>x. [CHR 0x27] @ x @ [CHR 0x27]),
             lit_2_0 = ''2.0''\<rparr>"

fun ex_result :: "(string, string) call \<Rightarrow> string" where
  "ex_result (FromFile fn) = ''s:'' @ fn"
| "ex_result RelaxerNew = ''relaxer''"
| "ex_result (Relax relaxer s) = ''relaxed:'' @ s"
| "ex_result (GetItem results k) = ''final:'' @ results"
| "ex_result (MDNew kw) = ''md:'' @ kw_atoms kw"
| "ex_result c = ''None''"

definition ex_X_total :: "(nat, string, string) externals" where
  "ex_X_total c w = (Inr (ex_result c), if is_print_call c then w else Suc w)"

definition ex_X :: "(nat, string, string) externals" where
  "ex_X c w =
     (if c = FromFile ''missing.cif'' then (Inl (ExtError ''FileNotFoundError''), w)
      else ex_X_total c w)"

definition ex_X_pipe :: "(nat, string, string) externals" where
  "ex_X_pipe c w =
     (if is_print_call c then (Inl (ExtError ''BrokenPipeError''), w) else ex_X_total c w)"

definition ex_state :: "(nat, string, string) state" where
  "ex_state = \<lparr>world = 0, trace = []\<rparr>"

section \<open>Lemmas\<close>

subsection \<open>Stepping through a program\<close>

lemma bind_prog_InrE:
  assumes "bind_prog m k st = (Inr y, st')"
  obtains x st1 where "m st = (Inr x, st1)" and "k x st1 = (Inr y, st')"
  using assms by (auto simp: bind_prog_def split: prod.splits sum.splits)

lemma for_each_ConsE:
  assumes "for_each body (x # xs) st = (Inr u, st')"
  obtains st1 where "body x st = (Inr (), st1)" and "for_each body xs st1 = (Inr u, st')"
  using assms by (auto split: prod.splits sum.splits)

lemma for_each_Cons_bind:
  "for_each body (x # xs) = bind_prog (body x) (\<lambda>_. for_each body xs)"
  by (rule ext) (simp add: bind_prog_def split: prod.splits sum.splits)

lemma for_each_append:
  "for_each body (xs @ ys) st =
     (case for_each body xs st of
        (Inl e, st') \<Rightarrow> (Inl e, st')
      | (Inr u, st') \<Rightarrow> for_each body ys st')"
  by (induction xs arbitrary: st) (auto split: prod.splits sum.splits)

lemma for_each_stops:
  assumes "for_each body pre st = (Inr (), st1)" and "body x st1 = (Inl e, st2)"
  shows "for_each body (pre @ x # rest) st = (Inl e, st2)"
  using assms by (simp add: for_each_append)

lemma relax_structure_InrE:
  assumes "relax_structure X a st = (Inr r, st')"
  obtains fns where "infile a = Some fns" and "for_each (relax_file X a) fns st = (Inr (), st')"
    and "r = 0"
  using assms
  by (auto simp: relax_structure_def raise_exn_def ret_def elim!: bind_prog_InrE
      split: option.splits)

lemma run_md_InrE:
  assumes "run_md X a st = (Inr r, st')"
  obtains fns where "infile a = Some fns" and "for_each (md_file X a) fns st = (Inr (), st')"
    and "r = 0"
  using assms
  by (auto simp: run_md_def raise_exn_def ret_def elim!: bind_prog_InrE
      split: option.splits)

lemma new_events_append: "trace st' = trace st @ evs \<Longrightarrow> new_events st st' = evs"
  by (simp add: new_events_def)

subsection \<open>The events of a loop body that returns\<close>

lemma perform_trace:
  "perform X c st = (Inr x, st') \<Longrightarrow> trace st' = trace st @ [Call c (Inr x)]"
  by (auto simp: perform_def split: prod.splits)

lemma py_print_trace:
  assumes "py_print X c st = (Inr u, st')"
  obtains r where "trace st' = trace st @ [Call c (Inr r)]"
proof -
  from assms obtain r where "perform X c st = (Inr r, st')"
    by (auto simp: py_print_def ret_def elim!: bind_prog_InrE)
  then show ?thesis using that by (auto dest: perform_trace)
qed

lemma announce_events:
  assumes "announce X v s doing st = (Inr u, st')"
  obtains evs where "trace st' = trace st @ evs" and "performed (status_prints v s doing) evs"
proof (cases v)
  case False
  with assms have "trace st' = trace st @ []"
    by (simp add: announce_def when_prog_def ret_def)
  then show ?thesis using that False by (simp add: status_prints_def)
next
  case True
  with assms obtain st1 st2 where
    1: "py_print X (PrintText ''Starting structure'') st = (Inr (), st1)"
    and 2: "py_print X (PrintObj s) st1 = (Inr (), st2)"
    and 3: "py_print X (PrintText doing) st2 = (Inr u, st')"
    by (auto simp: announce_def when_prog_def elim!: bind_prog_InrE)
  from 1 obtain r1 where t1: "trace st1 = trace st @ [Call (PrintText ''Starting structure'') (Inr r1)]"
    by (rule py_print_trace)
  from 2 obtain r2 where t2: "trace st2 = trace st1 @ [Call (PrintObj s) (Inr r2)]"
    by (rule py_print_trace)
  from 3 obtain r3 where t3: "trace st' = trace st2 @ [Call (PrintText doing) (Inr r3)]"
    by (rule py_print_trace)
  have "trace st' = trace st @ [Call (PrintText ''Starting structure'') (Inr r1),
      Call (PrintObj s) (Inr r2), Call (PrintText doing) (Inr r3)]"
    using t1 t2 t3 by simp
  then show ?thesis using that True by (simp add: status_prints_def)
qed

lemma write_result_events:
  assumes "write_result X a fn fs st = (Inr u, st')"
  obtains evs where "trace st' = trace st @ evs" and "performed (output_action a fn fs) evs"
proof -
  consider (s) "truthy (suffix a)" | (o) "\<not> truthy (suffix a)" "outfile a \<noteq> None"
    | (c) "\<not> truthy (suffix a)" "outfile a = None" by blast
  then show ?thesis
  proof cases
    case s
    let ?p = "fst (splitext fn) @ the (suffix a) @ snd (splitext fn)"
    from assms s obtain x st1 where
      1: "perform X (ToFile fs ?p) st = (Inr x, st1)" and
      2: "py_print X (PrintText (''Structure written to '' @ ?p @ ''!'')) st1 = (Inr u, st')"
      by (auto simp: write_result_def Let_def split: prod.splits elim!: bind_prog_InrE)
    from 2 obtain r where "trace st' = trace st1 @
        [Call (PrintText (''Structure written to '' @ ?p @ ''!'')) (Inr r)]"
      by (rule py_print_trace)
    with perform_trace[OF 1] have "trace st' = trace st @ [Call (ToFile fs ?p) (Inr x),
        Call (PrintText (''Structure written to '' @ ?p @ ''!'')) (Inr r)]" by simp
    then show ?thesis using that s by (simp add: output_action_def target_of_def)
  next
    case o
    let ?p = "the (outfile a)"
    from assms o obtain x st1 where
      1: "perform X (ToFile fs ?p) st = (Inr x, st1)" and
      2: "py_print X (PrintText (''Structure written to '' @ ?p @ ''!'')) st1 = (Inr u, st')"
      by (auto simp: write_result_def elim!: bind_prog_InrE)
    from 2 obtain r where "trace st' = trace st1 @
        [Call (PrintText (''Structure written to '' @ ?p @ ''!'')) (Inr r)]"
      by (rule py_print_trace)
    with perform_trace[OF 1] have "trace st' = trace st @ [Call (ToFile fs ?p) (Inr x),
        Call (PrintText (''Structure written to '' @ ?p @ ''!'')) (Inr r)]" by simp
    then show ?thesis using that o by (simp add: output_action_def target_of_def)
  next
    case c
    from assms c obtain st1 where
      1: "py_print X (PrintText ''Final structure'') st = (Inr (), st1)" and
      2: "py_print X (PrintObj fs) st1 = (Inr u, st')"
      by (auto simp: write_result_def elim!: bind_prog_InrE)
    from 1 obtain r1 where t1: "trace st1 = trace st @ [Call (PrintText ''Final structure'') (Inr r1)]"
      by (rule py_print_trace)
    from 2 obtain r2 where t2: "trace st' = trace st1 @ [Call (PrintObj fs) (Inr r2)]"
      by (rule py_print_trace)
    have "trace st' = trace st @ [Call (PrintText ''Final structure'') (Inr r1),
        Call (PrintObj fs) (Inr r2)]" using t1 t2 by simp
    then show ?thesis using that c by (simp add: output_action_def target_of_def)
  qed
qed

lemma relax_file_trace:
  assumes "relax_file X a fn st = (Inr u, st')"
  obtains evs where "trace st' = trace st @ evs" and "relax_file_events a fn evs"
proof -
  from assms obtain s st1 u2 st2 rx st3 res st4 fs st5 where
    1: "perform X (FromFile fn) st = (Inr s, st1)"
    and 2: "announce X (verbose a) s ''Relaxing...'' st1 = (Inr u2, st2)"
    and 3: "perform X RelaxerNew st2 = (Inr rx, st3)"
    and 4: "perform X (Relax rx s) st3 = (Inr res, st4)"
    and 5: "perform X (GetItem res ''final_structure'') st4 = (Inr fs, st5)"
    and 6: "write_result X a fn fs st5 = (Inr u, st')"
    unfolding relax_file_def by (elim bind_prog_InrE) blast
  from 2 obtain pre where p: "trace st2 = trace st1 @ pre"
    "performed (status_prints (verbose a) s ''Relaxing...'') pre" by (rule announce_events)
  from 6 obtain out where q: "trace st' = trace st5 @ out"
    "performed (output_action a fn fs) out" by (rule write_result_events)
  let ?evs = "Call (FromFile fn) (Inr s) # pre @
              [Call RelaxerNew (Inr rx), Call (Relax rx s) (Inr res),
               Call (GetItem res ''final_structure'') (Inr fs)] @ out"
  have "trace st' = trace st @ ?evs"
    using perform_trace[OF 1] p(1) perform_trace[OF 3] perform_trace[OF 4] perform_trace[OF 5] q(1)
    by simp
  moreover have "relax_file_events a fn ?evs"
    unfolding relax_file_events_def using p(2) q(2) by blast
  ultimately show ?thesis using that by blast
qed


lemma for_each_segments:
  assumes "for_each body xs st = (Inr u, st')"
    and "\<And>x s s'. body x s = (Inr (), s') \<Longrightarrow> \<exists>evs. trace s' = trace s @ evs \<and> P x evs"
  shows "\<exists>segs. trace st' = trace st @ concat segs \<and> list_all2 P xs segs"
  using assms(1)
proof (induction xs arbitrary: st)
  case Nil
  then have "trace st' = trace st @ concat []" by simp
  then show ?case by blast
next
  case (Cons x xs)
  from Cons.prems obtain st1 where 1: "body x st = (Inr (), st1)"
    and 2: "for_each body xs st1 = (Inr u, st')" by (rule for_each_ConsE)
  from assms(2)[OF 1] obtain evs where e: "trace st1 = trace st @ evs" "P x evs" by blast
  from Cons.IH[OF 2] obtain segs where s: "trace st' = trace st1 @ concat segs"
    "list_all2 P xs segs" by blast
  have "trace st' = trace st @ concat (evs # segs)" using e s by simp
  moreover have "list_all2 P (x # xs) (evs # segs)" using e s by simp
  ultimately show ?case by blast
qed

lemma relax_files_segments:
  assumes "for_each (relax_file X a) fns st = (Inr u, st')"
  obtains segs where "trace st' = trace st @ concat segs"
    and "list_all2 (relax_file_events a) fns segs"
proof -
  have "\<exists>segs. trace st' = trace st @ concat segs \<and> list_all2 (relax_file_events a) fns segs"
    using assms
  proof (rule for_each_segments)
    fix x s s'
    assume "relax_file X a x s = (Inr (), s')"
    then show "\<exists>evs. trace s' = trace s @ evs \<and> relax_file_events a x evs"
      by (elim relax_file_trace) blast
  qed
  then show ?thesis using that by blast
qed


subsection \<open>Reading the events of a loop body\<close>

lemma performed_ConsE:
  assumes "performed (c # cs) evs"
  obtains r evs' where "evs = Call c (Inr r) # evs'" and "performed cs evs'"
  using assms by (cases evs) auto


lemma status_prints_cases:
  assumes "performed (status_prints v s doing) pre"
  obtains "\<not> v" "pre = []"
  | r1 r2 r3 where "v" "pre = [Call (PrintText ''Starting structure'') (Inr r1),
      Call (PrintObj s) (Inr r2), Call (PrintText doing) (Inr r3)]"
proof (cases v)
  case False
  with assms that(1) show ?thesis by (simp add: status_prints_def)
next
  case True
  with assms have "performed [PrintText ''Starting structure'', PrintObj s, PrintText doing] pre"
    by (simp add: status_prints_def)
  then obtain r1 r2 r3 where "pre = [Call (PrintText ''Starting structure'') (Inr r1),
      Call (PrintObj s) (Inr r2), Call (PrintText doing) (Inr r3)]"
    by (auto elim!: performed_ConsE)
  with True that(2) show ?thesis by blast
qed

lemma output_action_cases:
  assumes "performed (output_action a fn fs) out"
  obtains p r1 r2 where "target_of a fn = Path p"
      "out = [Call (ToFile fs p) (Inr r1),
              Call (PrintText (''Structure written to '' @ p @ ''!'')) (Inr r2)]"
  | r1 r2 where "target_of a fn = Console"
      "out = [Call (PrintText ''Final structure'') (Inr r1), Call (PrintObj fs) (Inr r2)]"
proof (cases "target_of a fn")
  case Console
  with assms obtain r1 r2 where
    "out = [Call (PrintText ''Final structure'') (Inr r1), Call (PrintObj fs) (Inr r2)]"
    by (auto simp: output_action_def elim!: performed_ConsE)
  with Console that(2) show ?thesis by blast
next
  case (Path p)
  with assms obtain r1 r2 where
    "out = [Call (ToFile fs p) (Inr r1),
            Call (PrintText (''Structure written to '' @ p @ ''!'')) (Inr r2)]"
    by (auto simp: output_action_def elim!: performed_ConsE)
  with Path that(1) show ?thesis by blast
qed

lemma skeleton_append: "skeleton (xs @ ys) = skeleton xs @ skeleton ys"
  by (induction xs) (auto split: option.splits)

lemma status_prints_skeleton:
  assumes "performed (status_prints v s doing) pre" and "doing \<noteq> ''Final structure''"
  shows "skeleton pre = []"
  using assms(1)
  by (cases rule: status_prints_cases) (use assms(2) in simp_all)

lemma output_action_skeleton:
  assumes "performed (output_action a fn fs) out"
  shows "skeleton out = [Output (target_of a fn)]"
  using assms by (cases rule: output_action_cases) simp_all

lemma relax_file_events_skeleton:
  assumes "relax_file_events a fn evs"
  shows "skeleton evs = [Loaded fn, Output (target_of a fn)]"
proof -
  from assms obtain s relaxer results fs pre out where
    e: "evs = Call (FromFile fn) (Inr s) # pre @
              [Call RelaxerNew (Inr relaxer), Call (Relax relaxer s) (Inr results),
               Call (GetItem results ''final_structure'') (Inr fs)] @ out"
    and p: "performed (status_prints (verbose a) s ''Relaxing...'') pre"
    and q: "performed (output_action a fn fs) out"
    unfolding relax_file_events_def by blast
  have "skeleton pre = []" using p by (rule status_prints_skeleton) simp
  then show ?thesis using output_action_skeleton[OF q] by (simp add: e skeleton_append)
qed

lemma relax_segments_skeleton:
  "list_all2 (relax_file_events a) fns segs \<Longrightarrow>
   skeleton (concat segs) = concat (map (\<lambda>fn. [Loaded fn, Output (target_of a fn)]) fns)"
  by (induction fns segs rule: list_all2_induct)
    (simp_all add: skeleton_append relax_file_events_skeleton)

lemma relax_files_skeleton:
  assumes "for_each (relax_file X a) fns st = (Inr u, st')"
  shows "skeleton (trace st') =
     skeleton (trace st) @ concat (map (\<lambda>fn. [Loaded fn, Output (target_of a fn)]) fns)"
proof -
  from assms obtain segs where "trace st' = trace st @ concat segs"
    and "list_all2 (relax_file_events a) fns segs" by (rule relax_files_segments)
  then show ?thesis by (simp add: skeleton_append relax_segments_skeleton)
qed

lemma outputs_append: "outputs (xs @ ys) = outputs xs @ outputs ys"
  by (induction xs rule: outputs.induct) auto

lemma outputs_pairs:
  "outputs (concat (map (\<lambda>fn. [Loaded fn, Output (f fn)]) fns)) = map f fns"
  by (induction fns) auto











subsection \<open>Reading the events of the loop of run_md\<close>






subsection \<open>The parser\<close>

lemma take_all_invariant:
  assumes "take_all f opts s = Inr s'" and "P s"
    and "\<And>x s s'. x \<in> set opts \<Longrightarrow> P s \<Longrightarrow> f x s = Inr s' \<Longrightarrow> P s'"
  shows "P s'"
  using assms
proof (induction opts arbitrary: s)
  case Nil
  then show ?case by simp
next
  case (Cons x opts)
  from Cons.prems(1) obtain s1 where 1: "f x s = Inr s1" and 2: "take_all f opts s1 = Inr s'"
    by (auto split: sum.splits)
  have "P s1" using Cons.prems(3)[OF _ Cons.prems(2) 1] by simp
  moreover have "\<And>y t t'. y \<in> set opts \<Longrightarrow> P t \<Longrightarrow> f y t = Inr t' \<Longrightarrow> P t'"
    using Cons.prems(3) by (meson list.set_intros(2))
  ultimately show ?case using Cons.IH[OF 2] by blast
qed

lemma relax_take_cases:
  assumes "relax_take x (ns, seen) = Inr (ns', seen')"
  obtains (i) fs where "x = R_i fs" "fs \<noteq> []" "ns' = ns\<lparr>infile := Some fs\<rparr>" "seen' = insert ''infile'' seen"
  | (v) "x = R_v" "ns' = ns\<lparr>verbose := True\<rparr>" "seen' = insert ''verbose'' seen"
  | (s) y where "x = R_s y" "''outfile'' \<notin> seen" "ns' = ns\<lparr>suffix := Some y\<rparr>" "seen' = insert ''suffix'' seen"
  | (o) y where "x = R_o y" "''suffix'' \<notin> seen" "ns' = ns\<lparr>outfile := Some y\<rparr>" "seen' = insert ''outfile'' seen"
  using assms by (cases x) (simp_all split: if_splits)

lemma relax_take_inv:
  assumes "x \<in> set opts" "relax_inv opts r" "relax_take x r = Inr r'"
  shows "relax_inv opts r'"
proof -
  obtain ns seen ns' seen' where r: "r = (ns, seen)" "r' = (ns', seen')"
    by (cases r; cases r') auto
  from assms(3)[unfolded r] show ?thesis
  proof (cases rule: relax_take_cases)
    case (i fs)
    with assms(1,2) r show ?thesis by (simp add: relax_inv_def; blast)
  next
    case v
    with assms(1,2) r show ?thesis by (simp add: relax_inv_def)
  next
    case (s y)
    with assms(1,2) r show ?thesis by (simp add: relax_inv_def; blast)
  next
    case (o y)
    with assms(1,2) r show ?thesis by (simp add: relax_inv_def; blast)
  qed
qed

lemma relax_inv_init: "relax_inv opts (relax_defaults, {})"
  by (simp add: relax_inv_def relax_defaults_def)

lemma relax_take_all_inv:
  assumes "take_all relax_take opts (relax_defaults, {}) = Inr r"
  shows "relax_inv opts r"
  using assms relax_inv_init
proof (rule take_all_invariant [where P = "relax_inv opts"])
  fix x s s'
  assume "x \<in> set opts" "relax_inv opts s" "relax_take x s = Inr s'"
  then show "relax_inv opts s'" by (rule relax_take_inv)
qed

lemma relax_take_seen:
  "relax_take x (ns, seen) = Inr (ns', seen') \<Longrightarrow> seen' = insert (relax_dest x) seen"
  by (erule relax_take_cases) simp_all

lemma relax_take_all_seen:
  "take_all relax_take opts (ns, seen) = Inr (ns', seen') \<Longrightarrow> seen' = seen \<union> relax_dest ` set opts"
proof (induction opts arbitrary: ns seen)
  case Nil
  then show ?case by simp
next
  case (Cons x opts)
  then obtain ns1 seen1 where 1: "relax_take x (ns, seen) = Inr (ns1, seen1)"
    and 2: "take_all relax_take opts (ns1, seen1) = Inr (ns', seen')"
    by (auto split: sum.splits)
  show ?case using relax_take_seen[OF 1] Cons.IH[OF 2] by auto
qed

lemma parse_relax_InrE:
  assumes "parse_relax opts = Inr a"
  obtains seen where "take_all relax_take opts (relax_defaults, {}) = Inr (a, seen)"
    and "''infile'' \<in> seen"
  using assms
  by (auto simp: parse_relax_def check_required_def missing_def relax_required_def
      split: sum.splits if_splits)

lemma parse_relax_facts:
  assumes "parse_relax opts = Inr a"
  shows "(\<exists>fs. R_i fs \<in> set opts \<and> fs \<noteq> [] \<and> infile a = Some fs)"
    and "suffix a = None \<or> outfile a = None"
    and "outfile a = Some p \<Longrightarrow> suffix a = None \<and> R_o p \<in> set opts"
    and "suffix a = Some x \<Longrightarrow> outfile a = None \<and> R_s x \<in> set opts"
proof -
  from assms obtain seen where t: "take_all relax_take opts (relax_defaults, {}) = Inr (a, seen)"
    and i: "''infile'' \<in> seen" by (rule parse_relax_InrE)
  have inv: "relax_inv opts (a, seen)"
    using t by (rule relax_take_all_inv)
  show "(\<exists>fs. R_i fs \<in> set opts \<and> fs \<noteq> [] \<and> infile a = Some fs)"
    using inv i by (simp add: relax_inv_def)
  show "suffix a = None \<or> outfile a = None"
    using inv by (auto simp: relax_inv_def)
  show "outfile a = Some p \<Longrightarrow> suffix a = None \<and> R_o p \<in> set opts"
    using inv by (auto simp: relax_inv_def)
  show "suffix a = Some x \<Longrightarrow> outfile a = None \<and> R_s x \<in> set opts"
    using inv by (auto simp: relax_inv_def)
qed

lemma take_all_append:
  "take_all f (xs @ ys) s =
     (case take_all f xs s of Inl e \<Rightarrow> Inl e | Inr s' \<Rightarrow> take_all f ys s')"
  by (induction xs arbitrary: s) (auto split: sum.splits)

lemma relax_take_help:
  "relax_take x r = Inl (HelpRequested p) \<Longrightarrow> x = R_h \<and> p = RelaxParser"
  by (cases x; cases r) (simp_all split: if_splits)

lemma relax_take_all_help:
  "take_all relax_take opts r = Inl (HelpRequested p) \<Longrightarrow> R_h \<in> set opts \<and> p = RelaxParser"
proof (induction opts arbitrary: r)
  case Nil
  then show ?case by simp
next
  case (Cons x opts)
  show ?case
  proof (cases "relax_take x r")
    case (Inl e)
    with Cons.prems have "relax_take x r = Inl (HelpRequested p)" by simp
    then show ?thesis by (auto dest: relax_take_help)
  next
    case (Inr r')
    with Cons.prems have "take_all relax_take opts r' = Inl (HelpRequested p)" by simp
    from Cons.IH[OF this] show ?thesis by simp
  qed
qed

lemma check_required_stop:
  "check_required req r = Inl e \<Longrightarrow> \<exists>msg. e = UsageError msg"
  by (cases r) (auto simp: check_required_def split: if_splits)

lemma parse_relax_stop:
  assumes "parse_relax opts = Inl e"
  shows "(\<exists>msg. e = UsageError msg) \<or> (e = HelpRequested RelaxParser \<and> R_h \<in> set opts)"
proof (cases "take_all relax_take opts (relax_defaults, {})")
  case (Inl e')
  with assms have e: "e' = e" by (simp add: parse_relax_def)
  show ?thesis
  proof (cases e)
    case (UsageError msg)
    then show ?thesis by simp
  next
    case (HelpRequested p)
    with Inl e relax_take_all_help[of opts "(relax_defaults, {})" p] show ?thesis by simp
  qed
next
  case (Inr r)
  with assms have "check_required relax_required r = Inl e" by (simp add: parse_relax_def)
  then show ?thesis by (auto dest: check_required_stop)
qed

lemma relax_conflict_stops:
  assumes "R_s x \<in> set opts" and "R_o y \<in> set opts"
  shows "\<exists>e. take_all relax_take opts (relax_defaults, {}) = Inl e"
proof (cases "take_all relax_take opts (relax_defaults, {})")
  case (Inl e)
  then show ?thesis by simp
next
  case (Inr r)
  obtain ns seen where r: "r = (ns, seen)" by (cases r)
  have inv: "relax_inv opts (ns, seen)"
    using Inr[unfolded r] by (rule relax_take_all_inv)
  have "seen = {} \<union> relax_dest ` set opts"
    using Inr r by (intro relax_take_all_seen) simp
  with assms have "''suffix'' \<in> seen" "''outfile'' \<in> seen" by force+
  with inv show ?thesis by (simp add: relax_inv_def)
qed

lemma relax_conflict_rejected:
  assumes "R_s x \<in> set opts" and "R_o y \<in> set opts"
  shows "\<exists>e. parse_relax opts = Inl e"
  using relax_conflict_stops[OF assms] by (auto simp: parse_relax_def)

lemma relax_conflict_usage:
  assumes "R_s x \<in> set pre" and "R_o y \<in> set pre" and "R_h \<notin> set pre"
  shows "\<exists>msg. parse_relax (pre @ post) = Inl (UsageError msg)"
proof -
  from relax_conflict_stops[OF assms(1,2)] obtain e where
    e: "take_all relax_take pre (relax_defaults, {}) = Inl e" by blast
  have "\<exists>msg. e = UsageError msg"
  proof (cases e)
    case (UsageError msg)
    then show ?thesis by simp
  next
    case (HelpRequested p)
    with e relax_take_all_help[of pre "(relax_defaults, {})" p] assms(3) show ?thesis by simp
  qed
  with e show ?thesis by (auto simp: parse_relax_def take_all_append)
qed

lemma parse_relax_missing:
  assumes "\<forall>fs. R_i fs \<notin> set opts"
  shows "\<exists>e. parse_relax opts = Inl e"
proof (cases "parse_relax opts")
  case (Inl e)
  then show ?thesis by blast
next
  case (Inr a)
  with parse_relax_facts(1)[OF Inr] assms show ?thesis by blast
qed

lemmas parse_simps = parse_relax_def parse_md_def check_required_def missing_def
  relax_required_def md_required_def relax_defaults_def md_defaults_def main_def

lemma md_take_inv:
  assumes "x \<in> set opts" "md_inv L opts r" "md_take L x r = Inr r'"
  shows "md_inv L opts r'"
proof -
  obtain ns seen ns' seen' where r: "r = (ns, seen)" "r' = (ns', seen')" by (cases r; cases r') auto
  show ?thesis
  proof (cases x)
    case M_h
    with assms r show ?thesis by simp
  next
    case (M_i fs)
    with assms r show ?thesis by (clarsimp simp: md_inv_def split: if_splits; blast)
  next
    case M_v
    with assms r show ?thesis by (clarsimp simp: md_inv_def; blast)
  next
    case (M_t y)
    with assms r show ?thesis by (clarsimp simp: md_inv_def split: option.splits; blast)
  next
    case (M_e y)
    with assms r show ?thesis by (clarsimp simp: md_inv_def; blast)
  next
    case (M_dt y)
    with assms r show ?thesis by (clarsimp simp: md_inv_def split: option.splits; blast)
  next
    case (M_traj y)
    with assms r show ?thesis by (clarsimp simp: md_inv_def; blast)
  next
    case (M_log y)
    with assms r show ?thesis by (clarsimp simp: md_inv_def; blast)
  next
    case (M_loginterval y)
    with assms r show ?thesis by (clarsimp simp: md_inv_def split: option.splits; blast)
  next
    case (M_n y)
    with assms r show ?thesis by (clarsimp simp: md_inv_def split: option.splits; blast)
  qed
qed

lemma md_inv_init: "md_inv L opts (md_defaults L, {})"
  by (simp add: md_inv_def md_defaults_def)

lemma md_take_all_inv:
  assumes "take_all (md_take L) opts (md_defaults L, {}) = Inr r"
  shows "md_inv L opts r"
  using assms md_inv_init
proof (rule take_all_invariant [where P = "md_inv L opts"])
  fix x s s'
  assume "x \<in> set opts" "md_inv L opts s" "md_take L x s = Inr s'"
  then show "md_inv L opts s'" by (rule md_take_inv)
qed

lemma md_invD:
  assumes "md_inv L opts (ns, seen)"
  shows "''infile'' \<in> seen \<Longrightarrow> \<exists>fs. M_i fs \<in> set opts \<and> fs \<noteq> [] \<and> infile ns = Some fs"
    and "''temp'' \<in> seen \<Longrightarrow> \<exists>x v. M_t x \<in> set opts \<and> py_float L x = Some v \<and> temp ns = Some v"
    and "''ensemble'' \<in> seen \<Longrightarrow> M_e (ensemble ns) \<in> set opts"
    and "''timestep'' \<in> seen \<Longrightarrow> \<exists>x. M_dt x \<in> set opts \<and> py_float L x = Some (timestep ns)"
    and "''nsteps'' \<in> seen \<Longrightarrow> \<exists>x. M_n x \<in> set opts \<and> py_int L x = Some (nsteps ns)"
    and "''trajectory'' \<in> seen \<Longrightarrow> M_traj (trajectory ns) \<in> set opts"
    and "''trajectory'' \<notin> seen \<Longrightarrow> trajectory ns = ''md.traj''"
    and "''logfile'' \<in> seen \<Longrightarrow> M_log (logfile ns) \<in> set opts"
    and "''logfile'' \<notin> seen \<Longrightarrow> logfile ns = ''md.log''"
    and "''loginterval'' \<in> seen \<Longrightarrow>
           \<exists>x. M_loginterval x \<in> set opts \<and> py_int L x = Some (loginterval ns)"
    and "''loginterval'' \<notin> seen \<Longrightarrow> loginterval ns = 100"
  using assms unfolding md_inv_def prod.case by blast+

lemma md_missing_Nil:
  "missing md_required seen = [] \<longleftrightarrow>
     ''infile'' \<in> seen \<and> ''temp'' \<in> seen \<and> ''ensemble'' \<in> seen \<and> ''timestep'' \<in> seen \<and>
     ''nsteps'' \<in> seen"
  by (simp add: missing_def md_required_def)

lemma md_take_seen:
  "md_take L x (ns, seen) = Inr (ns', seen') \<Longrightarrow> seen' = insert (md_dest x) seen"
  by (cases x) (simp_all split: if_splits option.splits)

lemma md_take_all_seen:
  "take_all (md_take L) opts (ns, seen) = Inr (ns', seen') \<Longrightarrow> seen' = seen \<union> md_dest ` set opts"
proof (induction opts arbitrary: ns seen)
  case Nil
  then show ?case by simp
next
  case (Cons x opts)
  then obtain ns1 seen1 where 1: "md_take L x (ns, seen) = Inr (ns1, seen1)"
    and 2: "take_all (md_take L) opts (ns1, seen1) = Inr (ns', seen')"
    by (auto split: sum.splits)
  show ?case using md_take_seen[OF 1] Cons.IH[OF 2] by auto
qed

lemma parse_md_InrE:
  assumes "parse_md L opts = Inr a"
  obtains seen where "md_inv L opts (a, seen)" and "seen = md_dest ` set opts"
    and "''infile'' \<in> seen" "''temp'' \<in> seen" "''ensemble'' \<in> seen" "''timestep'' \<in> seen"
      "''nsteps'' \<in> seen"
proof -
  from assms obtain r where t: "take_all (md_take L) opts (md_defaults L, {}) = Inr r"
    and c: "check_required md_required r = Inr a"
    by (simp add: parse_md_def split: sum.splits)
  obtain ns seen where r: "r = (ns, seen)" by (cases r)
  from c r have m: "missing md_required seen = []" and ns: "ns = a"
    by (simp_all add: check_required_def split: if_splits)
  from t r ns have "md_inv L opts (a, seen)" by (auto dest: md_take_all_inv)
  moreover from t r have "seen = md_dest ` set opts" by (auto dest: md_take_all_seen)
  ultimately show ?thesis using m that by (simp add: md_missing_Nil)
qed

lemma md_dest_traj: "''trajectory'' = md_dest x \<longleftrightarrow> (\<exists>y. x = M_traj y)"
  by (cases x) simp_all

lemma md_dest_log: "''logfile'' = md_dest x \<longleftrightarrow> (\<exists>y. x = M_log y)"
  by (cases x) simp_all

lemma md_dest_loginterval: "''loginterval'' = md_dest x \<longleftrightarrow> (\<exists>y. x = M_loginterval y)"
  by (cases x) simp_all

lemma md_dest_mem:
  "''trajectory'' \<in> md_dest ` set opts \<longleftrightarrow> (\<exists>x. M_traj x \<in> set opts)"
  "''logfile'' \<in> md_dest ` set opts \<longleftrightarrow> (\<exists>x. M_log x \<in> set opts)"
  "''loginterval'' \<in> md_dest ` set opts \<longleftrightarrow> (\<exists>x. M_loginterval x \<in> set opts)"
  unfolding image_iff md_dest_traj md_dest_log md_dest_loginterval by blast+

lemma parse_md_facts:
  assumes "parse_md L opts = Inr a"
  shows "\<exists>fs. M_i fs \<in> set opts \<and> fs \<noteq> [] \<and> infile a = Some fs"
    and "\<exists>x v. M_t x \<in> set opts \<and> py_float L x = Some v \<and> temp a = Some v"
    and "M_e (ensemble a) \<in> set opts"
    and "\<exists>x. M_dt x \<in> set opts \<and> py_float L x = Some (timestep a)"
    and "\<exists>x. M_n x \<in> set opts \<and> py_int L x = Some (nsteps a)"
proof -
  from assms obtain seen where inv: "md_inv L opts (a, seen)"
    and s: "''infile'' \<in> seen" "''temp'' \<in> seen" "''ensemble'' \<in> seen" "''timestep'' \<in> seen"
      "''nsteps'' \<in> seen" by (rule parse_md_InrE)
  show "\<exists>fs. M_i fs \<in> set opts \<and> fs \<noteq> [] \<and> infile a = Some fs"
    using md_invD(1)[OF inv s(1)] .
  show "\<exists>x v. M_t x \<in> set opts \<and> py_float L x = Some v \<and> temp a = Some v"
    using md_invD(2)[OF inv s(2)] .
  show "M_e (ensemble a) \<in> set opts"
    using md_invD(3)[OF inv s(3)] .
  show "\<exists>x. M_dt x \<in> set opts \<and> py_float L x = Some (timestep a)"
    using md_invD(4)[OF inv s(4)] .
  show "\<exists>x. M_n x \<in> set opts \<and> py_int L x = Some (nsteps a)"
    using md_invD(5)[OF inv s(5)] .
qed

lemma parse_md_optional:
  assumes "parse_md L opts = Inr a"
  shows "(\<forall>x. M_traj x \<notin> set opts) \<Longrightarrow> trajectory a = ''md.traj''"
    and "(\<forall>x. M_log x \<notin> set opts) \<Longrightarrow> logfile a = ''md.log''"
    and "(\<forall>x. M_loginterval x \<notin> set opts) \<Longrightarrow> loginterval a = 100"
    and "(\<exists>x. M_traj x \<in> set opts) \<Longrightarrow> M_traj (trajectory a) \<in> set opts"
    and "(\<exists>x. M_log x \<in> set opts) \<Longrightarrow> M_log (logfile a) \<in> set opts"
    and "(\<exists>x. M_loginterval x \<in> set opts) \<Longrightarrow>
           \<exists>x. M_loginterval x \<in> set opts \<and> py_int L x = Some (loginterval a)"
proof -
  from assms obtain seen where inv: "md_inv L opts (a, seen)"
    and seen: "seen = md_dest ` set opts" by (rule parse_md_InrE)
  show "(\<forall>x. M_traj x \<notin> set opts) \<Longrightarrow> trajectory a = ''md.traj''"
    using md_invD(7)[OF inv] by (simp add: seen md_dest_mem)
  show "(\<forall>x. M_log x \<notin> set opts) \<Longrightarrow> logfile a = ''md.log''"
    using md_invD(9)[OF inv] by (simp add: seen md_dest_mem)
  show "(\<forall>x. M_loginterval x \<notin> set opts) \<Longrightarrow> loginterval a = 100"
    using md_invD(11)[OF inv] by (simp add: seen md_dest_mem)
  show "(\<exists>x. M_traj x \<in> set opts) \<Longrightarrow> M_traj (trajectory a) \<in> set opts"
    using md_invD(6)[OF inv] by (simp add: seen md_dest_mem)
  show "(\<exists>x. M_log x \<in> set opts) \<Longrightarrow> M_log (logfile a) \<in> set opts"
    using md_invD(8)[OF inv] by (simp add: seen md_dest_mem)
  show "(\<exists>x. M_loginterval x \<in> set opts) \<Longrightarrow>
           \<exists>x. M_loginterval x \<in> set opts \<and> py_int L x = Some (loginterval a)"
    using md_invD(10)[OF inv] by (simp add: seen md_dest_mem)
qed

lemma parse_md_missing:
  assumes "(\<forall>fs. M_i fs \<notin> set opts) \<or> (\<forall>x. M_t x \<notin> set opts) \<or> (\<forall>x. M_e x \<notin> set opts) \<or>
           (\<forall>x. M_dt x \<notin> set opts) \<or> (\<forall>x. M_n x \<notin> set opts)"
  shows "\<exists>e. parse_md L opts = Inl e"
proof (cases "parse_md L opts")
  case (Inl e)
  then show ?thesis by blast
next
  case (Inr a)
  from parse_md_facts[OF Inr] assms show ?thesis by blast
qed

lemma md_take_help:
  "md_take L x r = Inl (HelpRequested p) \<Longrightarrow> x = M_h \<and> p = MdParser"
  by (cases x; cases r) (simp_all split: if_splits option.splits)

lemma md_take_all_help:
  "take_all (md_take L) opts r = Inl (HelpRequested p) \<Longrightarrow> M_h \<in> set opts \<and> p = MdParser"
proof (induction opts arbitrary: r)
  case Nil
  then show ?case by simp
next
  case (Cons x opts)
  show ?case
  proof (cases "md_take L x r")
    case (Inl e)
    with Cons.prems have "md_take L x r = Inl (HelpRequested p)" by simp
    then show ?thesis by (auto dest: md_take_help)
  next
    case (Inr r')
    with Cons.prems have "take_all (md_take L) opts r' = Inl (HelpRequested p)" by simp
    from Cons.IH[OF this] show ?thesis by simp
  qed
qed

lemma parse_md_stop:
  assumes "parse_md L opts = Inl e"
  shows "(\<exists>msg. e = UsageError msg) \<or> (e = HelpRequested MdParser \<and> M_h \<in> set opts)"
proof (cases "take_all (md_take L) opts (md_defaults L, {})")
  case (Inl e')
  with assms have e: "e' = e" by (simp add: parse_md_def)
  show ?thesis
  proof (cases e)
    case (UsageError msg)
    then show ?thesis by simp
  next
    case (HelpRequested p)
    with Inl e md_take_all_help[of L opts "(md_defaults L, {})" p] show ?thesis by simp
  qed
next
  case (Inr r)
  with assms have "check_required md_required r = Inl e" by (simp add: parse_md_def)
  then show ?thesis by (auto dest: check_required_stop)
qed

lemma main_relax:
  "parse_args L av = Inr (RelaxNS a) \<Longrightarrow> main X L av st = finish (relax_structure X a st)"
  by (simp add: main_def)

lemma main_md:
  "parse_args L av = Inr (MdNS a) \<Longrightarrow> main X L av st = finish (run_md X a st)"
  by (simp add: main_def)

subsection \<open>The last occurrence of an option\<close>









subsection \<open>What splitext returns\<close>

lemma splitext_loop_append: "splitext_loop p i d = (root, ext) \<Longrightarrow> root @ ext = p"
proof (induction p i d rule: splitext_loop.induct)
  case (1 p i d)
  then show ?case
    by (subst (asm) (2) splitext_loop.simps) (auto split: if_splits)
qed

lemma splitext_append: "fst (splitext p) @ snd (splitext p) = p"
proof (cases "splitext p")
  case (Pair root ext)
  then have "root @ ext = p"
    by (auto simp: splitext_def Let_def split: if_splits dest: splitext_loop_append)
  with Pair show ?thesis by simp
qed

subsection \<open>The extension split off by splitext\<close>

lemma rfind_from_spec:
  "(c \<notin> set xs \<and> rfind_from c xs i found = found) \<or>
   (i \<le> rfind_from c xs i found \<and> rfind_from c xs i found < i + int (length xs) \<and>
    xs ! nat (rfind_from c xs i found - i) = c \<and>
    c \<notin> set (drop (Suc (nat (rfind_from c xs i found - i))) xs))"
proof (induction xs arbitrary: i found)
  case Nil
  then show ?case by simp
next
  case (Cons x xs)
  let ?f = "if x = c then i else found"
  let ?r = "rfind_from c xs (i + 1) ?f"
  have r: "rfind_from c (x # xs) i found = ?r" by simp
  from Cons[of "i + 1" ?f] consider
    (none) "c \<notin> set xs" "?r = ?f"
    | (some) "i + 1 \<le> ?r" "?r < i + 1 + int (length xs)" "xs ! nat (?r - (i + 1)) = c"
        "c \<notin> set (drop (Suc (nat (?r - (i + 1)))) xs)"
    by blast
  then show ?case
  proof cases
    case none
    then show ?thesis unfolding r by (cases "x = c") auto
  next
    case some
    from some(1) have n: "nat (?r - i) = Suc (nat (?r - (i + 1)))" by linarith
    show ?thesis unfolding r
      apply (rule disjI2)
      using some unfolding n by auto
  qed
qed

lemma rfind_spec:
  "(c \<notin> set p \<and> rfind p c = - 1) \<or>
   (0 \<le> rfind p c \<and> nat (rfind p c) < length p \<and> p ! nat (rfind p c) = c \<and>
    c \<notin> set (drop (Suc (nat (rfind p c))) p))"
  using rfind_from_spec[of c p 0 "- 1"] unfolding rfind_def by auto

lemma splitext_loop_cases:
  "splitext_loop p i d = (p, []) \<or> splitext_loop p i d = (take (nat d) p, drop (nat d) p)"
proof (induction p i d rule: splitext_loop.induct)
  case (1 p i d)
  show ?case
    by (subst (1 2) splitext_loop.simps) (use 1 in auto)
qed

lemma splitext_ext:
  "snd (splitext p) = [] \<or>
   (hd (snd (splitext p)) = CHR ''.'' \<and> CHR ''.'' \<notin> set (tl (snd (splitext p))) \<and>
    CHR ''/'' \<notin> set (snd (splitext p)))"
proof (cases "rfind p CHR ''.'' > rfind p CHR ''/''")
  case False
  then show ?thesis by (simp add: splitext_def)
next
  case True
  let ?d = "rfind p CHR ''.''" and ?s = "rfind p CHR ''/''"
  have sp: "splitext p = splitext_loop p (?s + 1) ?d"
    using True by (simp add: splitext_def)
  from splitext_loop_cases[of p "?s + 1" ?d] show ?thesis
  proof
    assume "splitext_loop p (?s + 1) ?d = (p, [])"
    with sp show ?thesis by simp
  next
    assume l: "splitext_loop p (?s + 1) ?d = (take (nat ?d) p, drop (nat ?d) p)"
    from rfind_spec[of "CHR ''/''" p] True have s: "- 1 \<le> ?s" by auto
    with True have d0: "0 \<le> ?d" by simp
    with rfind_spec[of "CHR ''.''" p] have d: "nat ?d < length p" "p ! nat ?d = CHR ''.''"
      "CHR ''.'' \<notin> set (drop (Suc (nat ?d)) p)" by auto
    have ext: "drop (nat ?d) p = CHR ''.'' # drop (Suc (nat ?d)) p"
      using d(1,2) by (metis Cons_nth_drop_Suc)
    have "CHR ''/'' \<notin> set (drop (nat ?d) p)"
    proof (cases "CHR ''/'' \<in> set p")
      case False
      then show ?thesis by (meson in_set_dropD)
    next
      case in_p: True
      with rfind_spec[of "CHR ''/''" p] have s0: "0 \<le> ?s"
        and ns: "CHR ''/'' \<notin> set (drop (Suc (nat ?s)) p)" by auto
      from s0 True have "Suc (nat ?s) \<le> nat ?d" by linarith
      then have "set (drop (nat ?d) p) \<subseteq> set (drop (Suc (nat ?s)) p)"
        by (rule set_drop_subset_set_drop)
      with ns show ?thesis by blast
    qed
    with sp l ext d(3) show ?thesis by simp
  qed
qed

subsection \<open>Exceptions of external calls\<close>

lemma propagatesI:
  assumes "\<And>st res st'. m st = (res, st') \<Longrightarrow> \<exists>evs. trace st' = trace st @ evs \<and> stops_at_failure evs res"
  shows "propagates m"
  using assms unfolding propagates_def by blast

lemma propagatesD:
  assumes "propagates m" and "m st = (res, st')"
  obtains evs where "trace st' = trace st @ evs" and "stops_at_failure evs res"
  using assms unfolding propagates_def by blast

lemma failure_free_append: "failure_free (xs @ ys) \<longleftrightarrow> failure_free xs \<and> failure_free ys"
  by (simp add: failure_free_def)

lemma failure_free_Nil: "failure_free []"
  by (simp add: failure_free_def)

lemma stops_at_failure_append:
  assumes "failure_free xs" and "stops_at_failure ys r"
  shows "stops_at_failure (xs @ ys) r"
proof (cases r)
  case (Inl e)
  with assms show ?thesis by (simp add: butlast_append failure_free_append)
next
  case (Inr x)
  with assms show ?thesis by (simp add: failure_free_append)
qed

lemma propagates_ret: "propagates (ret x)"
  by (rule propagatesI) (simp add: ret_def failure_free_Nil)

lemma propagates_perform: "propagates (perform X c)"
proof (rule propagatesI)
  fix st res st'
  assume "perform X c st = (res, st')"
  then have "trace st' = trace st @ [Call c res]"
    by (auto simp: perform_def split: prod.splits)
  moreover have "stops_at_failure [Call c res] res"
    by (cases res) (simp_all add: failure_free_def)
  ultimately show "\<exists>evs. trace st' = trace st @ evs \<and> stops_at_failure evs res" by blast
qed

lemma propagates_bind:
  assumes "propagates m" and "\<And>x. propagates (k x)"
  shows "propagates (bind_prog m k)"
proof (rule propagatesI)
  fix st res st'
  assume b: "bind_prog m k st = (res, st')"
  obtain r1 st1 where m: "m st = (r1, st1)" by (cases "m st")
  from assms(1) m obtain evs1 where e1: "trace st1 = trace st @ evs1" "stops_at_failure evs1 r1"
    by (rule propagatesD)
  show "\<exists>evs. trace st' = trace st @ evs \<and> stops_at_failure evs res"
  proof (cases r1)
    case (Inl e)
    with b m have "res = Inl e" "st' = st1" by (simp_all add: bind_prog_def)
    with e1 Inl show ?thesis by auto
  next
    case (Inr x)
    with b m have "k x st1 = (res, st')" by (simp add: bind_prog_def)
    with assms(2) obtain evs2 where e2: "trace st' = trace st1 @ evs2" "stops_at_failure evs2 res"
      by (rule propagatesD)
    from e1 Inr have "failure_free evs1" by simp
    with e2 have "stops_at_failure (evs1 @ evs2) res" by (simp add: stops_at_failure_append)
    with e1 e2 show ?thesis by auto
  qed
qed

lemma propagates_for_each:
  assumes "\<And>x. propagates (body x)"
  shows "propagates (for_each body xs)"
proof (induction xs)
  case Nil
  show ?case by (rule propagatesI) (simp add: failure_free_Nil)
next
  case (Cons x xs)
  have "for_each body (x # xs) = bind_prog (body x) (\<lambda>_. for_each body xs)"
    by (rule ext) (simp add: bind_prog_def split: prod.splits sum.splits)
  then show ?case using assms Cons by (simp add: propagates_bind)
qed

lemma propagates_py_print: "propagates (py_print X c)"
  unfolding py_print_def by (simp add: propagates_bind propagates_perform propagates_ret)

lemma propagates_announce: "propagates (announce X v s t)"
  unfolding announce_def when_prog_def
  by (simp add: propagates_ret propagates_bind propagates_py_print)

lemma propagates_write_result: "propagates (write_result X a fn fs)"
  unfolding write_result_def Let_def
  by (simp add: propagates_bind propagates_py_print propagates_perform split: prod.splits)

lemma propagates_relax_file: "propagates (relax_file X a fn)"
  unfolding relax_file_def
  by (intro propagates_bind propagates_perform propagates_announce propagates_write_result)

lemma propagates_md_file: "propagates (md_file X a fn)"
  unfolding md_file_def
  by (intro propagates_bind propagates_perform propagates_announce propagates_ret)

lemma propagates_relax_structure: "infile a = Some fns \<Longrightarrow> propagates (relax_structure X a)"
  unfolding relax_structure_def
  by (simp add: propagates_bind propagates_for_each propagates_relax_file propagates_ret)

lemma propagates_run_md: "infile a = Some fns \<Longrightarrow> propagates (run_md X a)"
  unfolding run_md_def
  by (simp add: propagates_bind propagates_for_each propagates_md_file propagates_ret)

subsection \<open>Programs that cannot raise\<close>










subsection \<open>Runs that differ in prints only\<close>

lemma adds_prints_only_refl: "adds_prints_only xs xs"
  by (induction xs) auto

lemma adds_prints_only_prints:
  "list_all is_print ys \<Longrightarrow> adds_prints_only xs ys' \<Longrightarrow> adds_prints_only xs (ys @ ys')"
proof (induction ys)
  case Nil
  then show ?case by simp
next
  case (Cons y ys)
  then show ?case by (cases xs) auto
qed

lemma adds_prints_only_append:
  "adds_prints_only xs ys \<Longrightarrow> adds_prints_only xs' ys' \<Longrightarrow>
   adds_prints_only (xs @ xs') (ys @ ys')"
proof (induction xs ys rule: adds_prints_only.induct)
  case (1 ys)
  then show ?case by (simp add: adds_prints_only_prints)
next
  case (2 x xs)
  then show ?case by simp
next
  case (3 x xs y ys)
  then show ?case by auto
qed

lemma adds_prints_only_calls: "adds_prints_only xs ys \<Longrightarrow> calls_of xs = calls_of ys"
proof (induction xs ys rule: adds_prints_only.induct)
  case (1 ys)
  then show ?case by (induction ys) (auto simp: calls_of_def)
next
  case (2 x xs)
  then show ?case by simp
next
  case (3 x xs y ys)
  then show ?case by (auto simp: calls_of_def)
qed

lemma agreeI:
  assumes "\<And>s t. quieter s t \<Longrightarrow> fst (m1 s) = fst (m2 t) \<and> quieter (snd (m1 s)) (snd (m2 t))"
  shows "agree m1 m2"
  using assms unfolding agree_def by blast

lemma agreeD:
  assumes "agree m1 m2" and "quieter s t"
  shows "fst (m1 s) = fst (m2 t)" and "quieter (snd (m1 s)) (snd (m2 t))"
  using assms unfolding agree_def by blast+

lemma agree_ret: "agree (ret x) (ret x)"
  by (rule agreeI) (simp add: ret_def)

lemma agree_perform: "agree (perform X c) (perform X c)"
  by (rule agreeI)
    (auto simp: perform_def quieter_def adds_prints_only_append split: prod.splits)

lemma agree_bind:
  fixes m1 :: "('w, 'o, 'f, 'a) prog"
  assumes "agree m1 m2" and "\<And>x. agree (k1 x) (k2 x)"
  shows "agree (bind_prog m1 k1) (bind_prog m2 k2)"
proof (rule agreeI)
  fix s t :: "('w, 'o, 'f) state"
  assume st: "quieter s t"
  obtain r1 s1 where m1: "m1 s = (r1, s1)" by (cases "m1 s")
  obtain r2 t1 where m2: "m2 t = (r2, t1)" by (cases "m2 t")
  from agreeD[OF assms(1) st] m1 m2 have r: "r1 = r2" and s1: "quieter s1 t1" by simp_all
  show "fst (bind_prog m1 k1 s) = fst (bind_prog m2 k2 t) \<and>
        quieter (snd (bind_prog m1 k1 s)) (snd (bind_prog m2 k2 t))"
  proof (cases r1)
    case (Inl e)
    with r have "r2 = Inl e" by simp
    with Inl m1 m2 s1 show ?thesis by (simp add: bind_prog_def)
  next
    case (Inr x)
    with r have "r2 = Inr x" by simp
    with Inr m1 m2 agreeD[OF assms(2) s1, of x] show ?thesis by (simp add: bind_prog_def)
  qed
qed

lemma agree_py_print: "agree (py_print X c) (py_print X c)"
  unfolding py_print_def by (simp add: agree_bind agree_perform agree_ret)

lemma agree_for_each:
  assumes "\<And>x. agree (body1 x) (body2 x)"
  shows "agree (for_each body1 xs) (for_each body2 xs)"
proof (induction xs)
  case Nil
  show ?case by (rule agreeI) simp
next
  case (Cons x xs)
  show ?case unfolding for_each_Cons_bind using assms Cons by (intro agree_bind)
qed

lemma silent_py_print:
  fixes X :: "('w, 'o, 'f) externals"
  assumes "silent_prints X" and "is_print_call c"
  shows "\<exists>r. py_print X c st = (Inr (), \<lparr>world = world st, trace = trace st @ [Call c (Inr r)]\<rparr>)"
proof -
  have "\<exists>r. X c (world st) = (Inr r, world st)"
    using assms unfolding silent_prints_def by (cases c) simp_all
  then obtain r where "X c (world st) = (Inr r, world st)" by blast
  then show ?thesis by (auto simp: py_print_def bind_prog_def perform_def ret_def)
qed

lemma silent_announce:
  fixes X :: "('w, 'o, 'f) externals"
  assumes "silent_prints X"
  shows "\<exists>evs. announce X v s doing st = (Inr (), \<lparr>world = world st, trace = trace st @ evs\<rparr>) \<and>
           list_all is_print evs"
proof (cases v)
  case False
  then have "announce X v s doing st = (Inr (), \<lparr>world = world st, trace = trace st @ []\<rparr>)"
    by (simp add: announce_def when_prog_def ret_def)
  moreover have "list_all is_print ([] :: ('o, 'f) event list)" by simp
  ultimately show ?thesis by blast
next
  case True
  let ?c1 = "PrintText ''Starting structure'' :: ('o, 'f) call"
  let ?c2 = "PrintObj s :: ('o, 'f) call" and ?c3 = "PrintText doing :: ('o, 'f) call"
  from silent_py_print[OF assms, of ?c1 st] obtain r1 where
    1: "py_print X ?c1 st = (Inr (), \<lparr>world = world st, trace = trace st @ [Call ?c1 (Inr r1)]\<rparr>)"
    by auto
  let ?s1 = "\<lparr>world = world st, trace = trace st @ [Call ?c1 (Inr r1)]\<rparr>"
  from silent_py_print[OF assms, of ?c2 ?s1] obtain r2 where
    2: "py_print X ?c2 ?s1 = (Inr (), \<lparr>world = world st,
          trace = trace st @ [Call ?c1 (Inr r1), Call ?c2 (Inr r2)]\<rparr>)"
    by auto
  let ?s2 = "\<lparr>world = world st, trace = trace st @ [Call ?c1 (Inr r1), Call ?c2 (Inr r2)]\<rparr>"
  from silent_py_print[OF assms, of ?c3 ?s2] obtain r3 where
    3: "py_print X ?c3 ?s2 = (Inr (), \<lparr>world = world st,
          trace = trace st @ [Call ?c1 (Inr r1), Call ?c2 (Inr r2), Call ?c3 (Inr r3)]\<rparr>)"
    by auto
  have "announce X v s doing st = (Inr (), \<lparr>world = world st,
          trace = trace st @ [Call ?c1 (Inr r1), Call ?c2 (Inr r2), Call ?c3 (Inr r3)]\<rparr>)"
    using True 1 2 3 by (simp add: announce_def when_prog_def bind_prog_def)
  moreover have "list_all is_print [Call ?c1 (Inr r1), Call ?c2 (Inr r2), Call ?c3 (Inr r3)]"
    by simp
  ultimately show ?thesis by blast
qed

lemma agree_announce:
  fixes X :: "('w, 'o, 'f) externals"
  assumes "silent_prints X"
  shows "agree (announce X False s doing) (announce X v s doing)"
proof (rule agreeI)
  fix a b :: "('w, 'o, 'f) state"
  assume q: "quieter a b"
  from silent_announce[OF assms, of v s doing b] obtain evs where
    e: "announce X v s doing b = (Inr (), \<lparr>world = world b, trace = trace b @ evs\<rparr>)"
    and p: "list_all is_print evs" by blast
  have l: "announce X False s doing a = (Inr (), a)"
    by (simp add: announce_def when_prog_def ret_def)
  have "adds_prints_only (trace a @ []) (trace b @ evs)"
    using q p by (intro adds_prints_only_append) (simp_all add: quieter_def)
  with q e l show "fst (announce X False s doing a) = fst (announce X v s doing b) \<and>
        quieter (snd (announce X False s doing a)) (snd (announce X v s doing b))"
    by (simp add: quieter_def)
qed

lemma agree_write_result: "agree (write_result X a fn fs) (write_result X a fn fs)"
  unfolding write_result_def Let_def
  by (simp add: agree_bind agree_py_print agree_perform split: prod.splits)

lemma write_result_verbose: "write_result X (a\<lparr>verbose := v\<rparr>) = write_result X a"
  by (rule ext)+ (simp add: write_result_def)

lemma agree_relax_file:
  assumes "silent_prints X"
  shows "agree (relax_file X (a\<lparr>verbose := False\<rparr>) fn) (relax_file X (a\<lparr>verbose := v\<rparr>) fn)"
  unfolding relax_file_def write_result_verbose
  by (simp add: agree_bind agree_perform agree_announce[OF assms] agree_write_result)

lemma md_kwargs_verbose: "md_kwargs_of (a\<lparr>verbose := v\<rparr>) = md_kwargs_of a"
  by (rule ext) (simp add: md_kwargs_of_def)

lemma agree_md_file:
  assumes "silent_prints X"
  shows "agree (md_file X (a\<lparr>verbose := False\<rparr>) fn) (md_file X (a\<lparr>verbose := v\<rparr>) fn)"
  unfolding md_file_def md_kwargs_verbose
  by (simp add: agree_bind agree_perform agree_announce[OF assms] agree_ret)

lemma agree_relax_structure:
  assumes "silent_prints X"
  shows "agree (relax_structure X (a\<lparr>verbose := False\<rparr>)) (relax_structure X (a\<lparr>verbose := v\<rparr>))"
proof (cases "infile a")
  case None
  then show ?thesis
    by (simp add: relax_structure_def raise_exn_def agree_def)
next
  case (Some fns)
  then show ?thesis
    by (simp add: relax_structure_def agree_bind agree_for_each agree_relax_file[OF assms]
        agree_ret)
qed

lemma agree_run_md:
  assumes "silent_prints X"
  shows "agree (run_md X (a\<lparr>verbose := False\<rparr>)) (run_md X (a\<lparr>verbose := v\<rparr>))"
proof (cases "infile a")
  case None
  then show ?thesis
    by (simp add: run_md_def raise_exn_def agree_def)
next
  case (Some fns)
  then show ?thesis
    by (simp add: run_md_def agree_bind agree_for_each agree_md_file[OF assms] agree_ret)
qed

lemma quieter_refl: "quieter st st"
  by (simp add: quieter_def adds_prints_only_refl)

lemma relax_structure_quieter:
  assumes "silent_prints X"
  shows "fst (relax_structure X (a\<lparr>verbose := False\<rparr>) st) =
         fst (relax_structure X (a\<lparr>verbose := v\<rparr>) st)"
    and "quieter (snd (relax_structure X (a\<lparr>verbose := False\<rparr>) st))
           (snd (relax_structure X (a\<lparr>verbose := v\<rparr>) st))"
  using agreeD[OF agree_relax_structure[OF assms] quieter_refl] by blast+

lemma run_md_quieter:
  assumes "silent_prints X"
  shows "fst (run_md X (a\<lparr>verbose := False\<rparr>) st) = fst (run_md X (a\<lparr>verbose := v\<rparr>) st)"
    and "quieter (snd (run_md X (a\<lparr>verbose := False\<rparr>) st))
           (snd (run_md X (a\<lparr>verbose := v\<rparr>) st))"
  using agreeD[OF agree_run_md[OF assms] quieter_refl] by blast+

lemma quieter_calls: "quieter s t \<Longrightarrow> world s = world t \<and> calls_of (trace s) = calls_of (trace t)"
  by (simp add: quieter_def adds_prints_only_calls)

subsection \<open>What every event of a run satisfies\<close>















subsection \<open>Evaluating the model\<close>

lemmas run_simps = relax_structure_def run_md_def relax_file_def md_file_def bind_prog_def
  perform_def py_print_def announce_def when_prog_def write_result_def ret_def raise_exn_def
  splitext_def rfind_def splitext_loop.simps md_kwargs_of_def

lemmas ex_simps = ex_lib_def ex_X_def ex_X_total_def ex_X_pipe_def ex_state_def

section \<open>The claims\<close>

subsection \<open>C1: one output action for each input file, in order\<close>



subsection \<open>C2: the name of the suffixed output file\<close>

text \<open>
  Claim C2, as the code has it. With a suffix \<open>sfx\<close> that is not empty, every input
  \<open>fn\<close> is written to \<open>basename @ sfx @ ext\<close>, where \<open>(basename, ext) = splitext fn\<close>:
  the two parts put together give \<open>fn\<close> back, and \<open>ext\<close> is empty or starts with the
  last dot of the file name and holds no other dot and no \<open>/\<close>.
\<close>

theorem suffix_output_names:
  assumes "relax_structure X a st = (Inr r, st')" and "infile a = Some fns"
    and "suffix a = Some sfx" and "sfx \<noteq> []"
  shows "outputs (skeleton (trace st')) =
           outputs (skeleton (trace st)) @
           map (\<lambda>fn. Path (fst (splitext fn) @ sfx @ snd (splitext fn))) fns
         \<and> (\<forall>fn. fst (splitext fn) @ snd (splitext fn) = fn)
         \<and> (\<forall>fn. snd (splitext fn) = [] \<or>
                 (hd (snd (splitext fn)) = CHR ''.'' \<and> CHR ''.'' \<notin> set (tl (snd (splitext fn))) \<and>
                  CHR ''/'' \<notin> set (snd (splitext fn))))"
proof -
  from assms have "for_each (relax_file X a) fns st = (Inr (), st')"
    by (auto elim: relax_structure_InrE)
  from relax_files_skeleton[OF this]
  have "outputs (skeleton (trace st')) = outputs (skeleton (trace st)) @ map (target_of a) fns"
    by (simp add: outputs_append outputs_pairs)
  moreover have "target_of a = (\<lambda>fn. Path (fst (splitext fn) @ sfx @ snd (splitext fn)))"
    using assms(3,4) by (auto simp: target_of_def)
  ultimately show ?thesis using splitext_ext by (simp add: splitext_append)
qed

theorem suffix_output_names_witness:
  "outputs (skeleton (trace (snd (relax_structure ex_X
      \<lparr>infile = Some [''a.cif'', ''run.1/POSCAR'', ''d/.hidden'', ''x.tar.gz''], verbose = False,
        suffix = Some ''_relax'', outfile = None\<rparr> ex_state))))
   = [Path ''a_relax.cif'', Path ''run.1/POSCAR_relax'', Path ''d/.hidden_relax'', Path ''x.tar_relax.gz'']"
  using suffix_output_names [of ex_X
      "\<lparr>infile = Some [''a.cif'', ''run.1/POSCAR'', ''d/.hidden'', ''x.tar.gz''], verbose = False,
        suffix = Some ''_relax'', outfile = None\<rparr>" ex_state 0
      "snd (relax_structure ex_X
      \<lparr>infile = Some [''a.cif'', ''run.1/POSCAR'', ''d/.hidden'', ''x.tar.gz''], verbose = False,
        suffix = Some ''_relax'', outfile = None\<rparr> ex_state)"
      "[''a.cif'', ''run.1/POSCAR'', ''d/.hidden'', ''x.tar.gz'']" "''_relax''"]
  by (simp add: ex_simps run_simps)

text \<open>
  Claim C2 as it was stated, for every suffix that is set, fails for the empty
  suffix: \<open>relax -i a.cif -s ""\<close> is accepted with \<open>suffix = ""\<close>, the test
  \<open>if args.suffix:\<close> is false for it, and the relaxed structure is printed instead of
  being written to \<open>a.cif\<close>.
\<close>

theorem empty_suffix_counterexample:
  "parse_args ex_lib (RelaxCmd [R_i [''a.cif''], R_s ''''])
     = Inr (RelaxNS \<lparr>infile = Some [''a.cif''], verbose = False, suffix = Some '''', outfile = None\<rparr>)
   \<and> main ex_X ex_lib (RelaxCmd [R_i [''a.cif''], R_s '''']) ex_state
     = (Returned 0,
        \<lparr>world = 4,
         trace = [Call (FromFile ''a.cif'') (Inr ''s:a.cif''),
                  Call RelaxerNew (Inr ''relaxer''),
                  Call (Relax ''relaxer'' ''s:a.cif'') (Inr ''relaxed:s:a.cif''),
                  Call (GetItem ''relaxed:s:a.cif'' ''final_structure'')
                    (Inr ''final:relaxed:s:a.cif''),
                  Call (PrintText ''Final structure'') (Inr ''None''),
                  Call (PrintObj ''final:relaxed:s:a.cif'') (Inr ''None'')]\<rparr>)
   \<and> outputs (skeleton (trace (snd (main ex_X ex_lib (RelaxCmd [R_i [''a.cif''], R_s '''']) ex_state))))
     = [Console]
   \<and> [Console] \<noteq> [Path (fst (splitext ''a.cif'') @ '''' @ snd (splitext ''a.cif''))]"
  by (simp add: ex_simps parse_simps run_simps finish_def)

subsection \<open>C3: the defaults of md\<close>

text \<open>
  Claim C3. In a namespace parsed from an \<open>md\<close> command line, \<open>trajectory\<close>,
  \<open>logfile\<close> and \<open>loginterval\<close> hold \<open>md.traj\<close>, \<open>md.log\<close> and \<open>100\<close> when
  \<open>--traj\<close>, \<open>--log\<close> and \<open>--loginterval\<close> were omitted, and the (converted) value
  of an occurrence when they were given. \<open>-dt\<close> is required: the timestep is always the
  converted value of an occurrence given, and a command line without \<open>-dt\<close> gives no
  namespace (the parser leaves with exit status \<open>2\<close> after the usage message, unless
  the command line asks for the help), so the declared default \<open>2.0\<close> is never what
  the handler sees.
\<close>

theorem md_defaults_when_omitted:
  "(parse_md L opts = Inr a \<longrightarrow>
      ((\<forall>x. M_traj x \<notin> set opts) \<longrightarrow> trajectory a = ''md.traj'') \<and>
      ((\<forall>x. M_log x \<notin> set opts) \<longrightarrow> logfile a = ''md.log'') \<and>
      ((\<forall>x. M_loginterval x \<notin> set opts) \<longrightarrow> loginterval a = 100) \<and>
      (\<exists>x. M_dt x \<in> set opts \<and> py_float L x = Some (timestep a)))
   \<and> (parse_md L opts' = Inr a' \<longrightarrow>
      ((\<exists>x. M_traj x \<in> set opts') \<longrightarrow> M_traj (trajectory a') \<in> set opts') \<and>
      ((\<exists>x. M_log x \<in> set opts') \<longrightarrow> M_log (logfile a') \<in> set opts') \<and>
      ((\<exists>x. M_loginterval x \<in> set opts') \<longrightarrow>
         (\<exists>x. M_loginterval x \<in> set opts' \<and> py_int L x = Some (loginterval a'))))
   \<and> ((\<forall>x. M_dt x \<notin> set opts'') \<longrightarrow>
        (\<exists>e. parse_md L opts'' = Inl e \<and>
           main X L (MdCmd opts'') st =
             (SystemExit (exit_status e),
              \<lparr>world = world st, trace = trace st @ [stop_event e]\<rparr>) \<and>
           ((\<exists>msg. e = UsageError msg \<and>
               main X L (MdCmd opts'') st =
                 (SystemExit 2, \<lparr>world = world st, trace = trace st @ [PrintUsage msg]\<rparr>)) \<or>
            (M_h \<in> set opts'' \<and> e = HelpRequested MdParser))))"
proof (intro conjI impI)
  assume p: "parse_md L opts = Inr a"
  show "\<forall>x. M_traj x \<notin> set opts \<Longrightarrow> trajectory a = ''md.traj''"
    by (rule parse_md_optional(1)[OF p])
  show "\<forall>x. M_log x \<notin> set opts \<Longrightarrow> logfile a = ''md.log''"
    by (rule parse_md_optional(2)[OF p])
  show "\<forall>x. M_loginterval x \<notin> set opts \<Longrightarrow> loginterval a = 100"
    by (rule parse_md_optional(3)[OF p])
  show "\<exists>x. M_dt x \<in> set opts \<and> py_float L x = Some (timestep a)"
    by (rule parse_md_facts(4)[OF p])
next
  assume p: "parse_md L opts' = Inr a'"
  show "\<exists>x. M_traj x \<in> set opts' \<Longrightarrow> M_traj (trajectory a') \<in> set opts'"
    by (rule parse_md_optional(4)[OF p])
  show "\<exists>x. M_log x \<in> set opts' \<Longrightarrow> M_log (logfile a') \<in> set opts'"
    by (rule parse_md_optional(5)[OF p])
  show "\<exists>x. M_loginterval x \<in> set opts' \<Longrightarrow>
         \<exists>x. M_loginterval x \<in> set opts' \<and> py_int L x = Some (loginterval a')"
    by (rule parse_md_optional(6)[OF p])
next
  assume "\<forall>x. M_dt x \<notin> set opts''"
  then obtain e where e: "parse_md L opts'' = Inl e"
    using parse_md_missing[of opts'' L] by blast
  then have m: "main X L (MdCmd opts'') st =
      (SystemExit (exit_status e), \<lparr>world = world st, trace = trace st @ [stop_event e]\<rparr>)"
    by (simp add: main_def)
  from parse_md_stop[OF e] m
  have "(\<exists>msg. e = UsageError msg \<and>
               main X L (MdCmd opts'') st =
                 (SystemExit 2, \<lparr>world = world st, trace = trace st @ [PrintUsage msg]\<rparr>)) \<or>
        (M_h \<in> set opts'' \<and> e = HelpRequested MdParser)"
    by auto
  with e m show "\<exists>e. parse_md L opts'' = Inl e \<and>
           main X L (MdCmd opts'') st =
             (SystemExit (exit_status e),
              \<lparr>world = world st, trace = trace st @ [stop_event e]\<rparr>) \<and>
           ((\<exists>msg. e = UsageError msg \<and>
               main X L (MdCmd opts'') st =
                 (SystemExit 2, \<lparr>world = world st, trace = trace st @ [PrintUsage msg]\<rparr>)) \<or>
            (M_h \<in> set opts'' \<and> e = HelpRequested MdParser))"
    by blast
qed

theorem md_defaults_when_omitted_witness:
  "parse_md ex_lib [M_i [''a.cif''], M_t ''300'', M_e ''nvt'', M_dt ''1.0'', M_n ''10'']
   = Inr \<lparr>infile = Some [''a.cif''], verbose = False, temp = Some ''300'', ensemble = ''nvt'',
          timestep = ''1.0'', trajectory = ''md.traj'', logfile = ''md.log'', loginterval = 100,
          nsteps = 10\<rparr>
   \<and> parse_md ex_lib
     [M_i [''a.cif''], M_traj ''t.traj'', M_t ''300'', M_log ''t.log'', M_e ''nvt'', M_dt ''1.0'',
      M_loginterval ''5'', M_n ''10'']
   = Inr \<lparr>infile = Some [''a.cif''], verbose = False, temp = Some ''300'', ensemble = ''nvt'',
          timestep = ''1.0'', trajectory = ''t.traj'', logfile = ''t.log'', loginterval = 5,
          nsteps = 10\<rparr>
   \<and> main ex_X ex_lib (MdCmd [M_i [''a.cif''], M_t ''300'', M_e ''nvt'', M_n ''10'']) ex_state
     = (SystemExit 2,
        \<lparr>world = 0, trace = [PrintUsage ''the following arguments are required: -dt/--timestep'']\<rparr>)"
  using md_defaults_when_omitted [of ex_lib
      "[M_i [''a.cif''], M_t ''300'', M_e ''nvt'', M_dt ''1.0'', M_n ''10'']"
      "\<lparr>infile = Some [''a.cif''], verbose = False, temp = Some ''300'', ensemble = ''nvt'',
          timestep = ''1.0'', trajectory = ''md.traj'', logfile = ''md.log'', loginterval = 100,
          nsteps = 10\<rparr>"
      "[M_i [''a.cif''], M_traj ''t.traj'', M_t ''300'', M_log ''t.log'', M_e ''nvt'', M_dt ''1.0'',
      M_loginterval ''5'', M_n ''10'']"
      "\<lparr>infile = Some [''a.cif''], verbose = False, temp = Some ''300'', ensemble = ''nvt'',
          timestep = ''1.0'', trajectory = ''t.traj'', logfile = ''t.log'', loginterval = 5,
          nsteps = 10\<rparr>"
      "[M_i [''a.cif''], M_t ''300'', M_e ''nvt'', M_n ''10'']"
      ex_X ex_state]
  by (simp add: ex_simps parse_simps)

subsection \<open>C4: exit codes\<close>

text \<open>
  Claim C4 as it was stated fails for the command line \<open>m3gnet -h\<close>: no sub-command
  is supplied, the help is printed, and the exit status is \<open>0\<close>, not \<open>-1\<close>.
\<close>

theorem help_without_subcommand_counterexample:
  "main ex_X ex_lib TopHelp ex_state = (SystemExit 0, \<lparr>world = 0, trace = [PrintHelp TopParser]\<rparr>)
   \<and> SystemExit 0 \<noteq> SystemExit (- 1)"
  by (simp add: ex_simps parse_simps)

text \<open>
  Claim C4, as the code has it. With no argument at all \<open>main\<close> prints the help and
  exits with \<open>-1\<close>, calling no handler (the trace gains the help and nothing else, the
  world is unchanged); with \<open>-h\<close> in place of a sub-command it prints the help and
  exits with \<open>0\<close>. When the handler of a parsed command line returns, \<open>main\<close> returns
  \<open>0\<close> in the state the handler left; a handler that returns returns \<open>0\<close>; and
  \<open>main\<close> returns only in this way, after the handler of the parsed sub-command has
  returned \<open>0\<close>.
\<close>

theorem exit_codes:
  "main X L NoSubcommand st =
     (SystemExit (- 1), \<lparr>world = world st, trace = trace st @ [PrintHelp TopParser]\<rparr>)
   \<and> main X L TopHelp st =
     (SystemExit 0, \<lparr>world = world st, trace = trace st @ [PrintHelp TopParser]\<rparr>)
   \<and> (parse_args L av1 = Inr (RelaxNS a) \<and> relax_structure X a st1 = (Inr r1, st1') \<longrightarrow>
        r1 = 0 \<and> main X L av1 st1 = (Returned 0, st1'))
   \<and> (parse_args L av2 = Inr (MdNS b) \<and> run_md X b st2 = (Inr r2, st2') \<longrightarrow>
        r2 = 0 \<and> main X L av2 st2 = (Returned 0, st2'))
   \<and> (main X L av3 st3 = (Returned r3, st3') \<longrightarrow>
        r3 = 0 \<and>
        ((\<exists>a'. parse_args L av3 = Inr (RelaxNS a') \<and> relax_structure X a' st3 = (Inr 0, st3')) \<or>
         (\<exists>b'. parse_args L av3 = Inr (MdNS b') \<and> run_md X b' st3 = (Inr 0, st3'))))"
proof (intro conjI impI)
  show "main X L NoSubcommand st =
     (SystemExit (- 1), \<lparr>world = world st, trace = trace st @ [PrintHelp TopParser]\<rparr>)"
    by (simp add: main_def)
  show "main X L TopHelp st =
     (SystemExit 0, \<lparr>world = world st, trace = trace st @ [PrintHelp TopParser]\<rparr>)"
    by (simp add: main_def)
next
  assume h: "parse_args L av1 = Inr (RelaxNS a) \<and> relax_structure X a st1 = (Inr r1, st1')"
  then show r: "r1 = 0" by (auto elim: relax_structure_InrE)
  from h r show "main X L av1 st1 = (Returned 0, st1')"
    by (simp add: main_relax finish_def)
next
  assume h: "parse_args L av2 = Inr (MdNS b) \<and> run_md X b st2 = (Inr r2, st2')"
  then show r: "r2 = 0" by (auto elim: run_md_InrE)
  from h r show "main X L av2 st2 = (Returned 0, st2')"
    by (simp add: main_md finish_def)
next
  assume m: "main X L av3 st3 = (Returned r3, st3')"
  have "r3 = 0 \<and>
        ((\<exists>a'. parse_args L av3 = Inr (RelaxNS a') \<and> relax_structure X a' st3 = (Inr 0, st3')) \<or>
         (\<exists>b'. parse_args L av3 = Inr (MdNS b') \<and> run_md X b' st3 = (Inr 0, st3')))"
  proof (cases "parse_args L av3")
    case (Inl e)
    with m show ?thesis by (simp add: main_def)
  next
    case (Inr ns)
    show ?thesis
    proof (cases ns)
      case EmptyNS
      with m Inr show ?thesis by (simp add: main_def)
    next
      case (RelaxNS x)
      with m Inr have h: "relax_structure X x st3 = (Inr r3, st3')"
        by (simp add: main_def finish_def split: prod.splits sum.splits)
      then have "r3 = 0" by (rule relax_structure_InrE)
      with h Inr RelaxNS show ?thesis by simp
    next
      case (MdNS x)
      with m Inr have h: "run_md X x st3 = (Inr r3, st3')"
        by (simp add: main_def finish_def split: prod.splits sum.splits)
      then have "r3 = 0" by (rule run_md_InrE)
      with h Inr MdNS show ?thesis by simp
    qed
  qed
  then show "r3 = 0"
    and "(\<exists>a'. parse_args L av3 = Inr (RelaxNS a') \<and> relax_structure X a' st3 = (Inr 0, st3')) \<or>
         (\<exists>b'. parse_args L av3 = Inr (MdNS b') \<and> run_md X b' st3 = (Inr 0, st3'))"
    by blast+
qed

theorem exit_codes_witness:
  "main ex_X ex_lib NoSubcommand ex_state
     = (SystemExit (- 1), \<lparr>world = 0, trace = [PrintHelp TopParser]\<rparr>)
   \<and> main ex_X ex_lib (RelaxCmd [R_i [''a.cif''], R_o ''o.cif'']) ex_state
     = (Returned 0,
        \<lparr>world = 5,
         trace = [Call (FromFile ''a.cif'') (Inr ''s:a.cif''),
                  Call RelaxerNew (Inr ''relaxer''),
                  Call (Relax ''relaxer'' ''s:a.cif'') (Inr ''relaxed:s:a.cif''),
                  Call (GetItem ''relaxed:s:a.cif'' ''final_structure'')
                    (Inr ''final:relaxed:s:a.cif''),
                  Call (ToFile ''final:relaxed:s:a.cif'' ''o.cif'') (Inr ''None''),
                  Call (PrintText ''Structure written to o.cif!'') (Inr ''None'')]\<rparr>)
   \<and> main ex_X ex_lib
        (MdCmd [M_i [''a.cif''], M_t ''300'', M_e ''nvt'', M_dt ''1.0'', M_n ''10'']) ex_state
     = (Returned 0,
        \<lparr>world = 3,
         trace = [Call (FromFile ''a.cif'') (Inr ''s:a.cif''),
                  Call (MDNew \<lparr>kw_atoms = ''s:a.cif'', kw_temperature = Some ''300'',
                          kw_ensemble = ''nvt'', kw_timestep = ''1.0'', kw_trajectory = ''md.traj'',
                          kw_logfile = ''md.log'', kw_loginterval = 100\<rparr>) (Inr ''md:s:a.cif''),
                  Call (MDRun ''md:s:a.cif'' 10) (Inr ''None'')]\<rparr>)"
  using exit_codes [where X = ex_X and L = ex_lib and st = ex_state
      and ?av1.0 = "RelaxCmd [R_i [''a.cif''], R_o ''o.cif'']"
      and a = "\<lparr>infile = Some [''a.cif''], verbose = False, suffix = None, outfile = Some ''o.cif''\<rparr>"
      and ?st1.0 = ex_state and ?r1.0 = 0
      and st1' = "snd (relax_structure ex_X
          \<lparr>infile = Some [''a.cif''], verbose = False, suffix = None, outfile = Some ''o.cif''\<rparr>
          ex_state)"
      and ?av2.0 = "MdCmd [M_i [''a.cif''], M_t ''300'', M_e ''nvt'', M_dt ''1.0'', M_n ''10'']"
      and b = "\<lparr>infile = Some [''a.cif''], verbose = False, temp = Some ''300'', ensemble = ''nvt'',
          timestep = ''1.0'', trajectory = ''md.traj'', logfile = ''md.log'', loginterval = 100,
          nsteps = 10\<rparr>"
      and ?st2.0 = ex_state and ?r2.0 = 0
      and st2' = "snd (run_md ex_X
          \<lparr>infile = Some [''a.cif''], verbose = False, temp = Some ''300'', ensemble = ''nvt'',
          timestep = ''1.0'', trajectory = ''md.traj'', logfile = ''md.log'', loginterval = 100,
          nsteps = 10\<rparr> ex_state)"
      and ?av3.0 = "RelaxCmd [R_i [''a.cif''], R_o ''o.cif'']" and ?st3.0 = ex_state and ?r3.0 = 0
      and st3' = "snd (main ex_X ex_lib (RelaxCmd [R_i [''a.cif''], R_o ''o.cif'']) ex_state)"]
  by (simp add: ex_simps parse_simps run_simps finish_def)

subsection \<open>C5: -s and -o exclude each other\<close>

text \<open>
  Claim C5 as it was stated fails when the command line also asks for the help:
  \<open>relax -h -s _relax -o out.cif\<close> supplies both options, and the parser prints the
  help and exits with status \<open>0\<close> at \<open>-h\<close>, before it looks at the two options.
\<close>

theorem help_before_conflict_counterexample:
  "R_s ''_relax'' \<in> set [R_h, R_s ''_relax'', R_o ''out.cif'']
   \<and> R_o ''out.cif'' \<in> set [R_h, R_s ''_relax'', R_o ''out.cif'']
   \<and> main ex_X ex_lib (RelaxCmd [R_h, R_s ''_relax'', R_o ''out.cif'']) ex_state
     = (SystemExit 0, \<lparr>world = 0, trace = [PrintHelp RelaxParser]\<rparr>)"
  by (simp add: ex_simps parse_simps)

text \<open>
  Claim C5, as the code has it. A \<open>relax\<close> command line with an occurrence of \<open>-s\<close>
  and one of \<open>-o\<close> never reaches the handler: the parser leaves, and no external call
  is made. When both occur before any \<open>-h\<close> the exit status is \<open>2\<close>, after a usage
  message, whatever follows them; otherwise it is \<open>2\<close> after a usage message or \<open>0\<close>
  after the help, and \<open>0\<close> only if \<open>-h\<close> was given. No namespace the parser returns
  has both \<open>suffix\<close> and \<open>outfile\<close> set.
\<close>

theorem suffix_outfile_conflict:
  "(R_s x \<in> set pre \<and> R_o y \<in> set pre \<and> R_h \<notin> set pre \<longrightarrow>
      (\<exists>msg. parse_args L (RelaxCmd (pre @ post)) = Inl (UsageError msg) \<and>
             main X L (RelaxCmd (pre @ post)) st =
               (SystemExit 2, \<lparr>world = world st, trace = trace st @ [PrintUsage msg]\<rparr>)))
   \<and> (R_s x1 \<in> set opts1 \<and> R_o y1 \<in> set opts1 \<longrightarrow>
      (\<exists>e. parse_args L (RelaxCmd opts1) = Inl e) \<and>
      ((\<exists>msg. main X L (RelaxCmd opts1) st1 =
               (SystemExit 2, \<lparr>world = world st1, trace = trace st1 @ [PrintUsage msg]\<rparr>)) \<or>
       (R_h \<in> set opts1 \<and>
        main X L (RelaxCmd opts1) st1 =
          (SystemExit 0, \<lparr>world = world st1, trace = trace st1 @ [PrintHelp RelaxParser]\<rparr>))))
   \<and> (parse_args L (RelaxCmd opts') = Inr (RelaxNS a) \<longrightarrow> suffix a = None \<or> outfile a = None)"
proof (intro conjI impI)
  assume "R_s x \<in> set pre \<and> R_o y \<in> set pre \<and> R_h \<notin> set pre"
  then obtain msg where "parse_relax (pre @ post) = Inl (UsageError msg)"
    using relax_conflict_usage[of x pre y post] by blast
  then show "\<exists>msg. parse_args L (RelaxCmd (pre @ post)) = Inl (UsageError msg) \<and>
             main X L (RelaxCmd (pre @ post)) st =
               (SystemExit 2, \<lparr>world = world st, trace = trace st @ [PrintUsage msg]\<rparr>)"
    by (simp add: main_def)
next
  assume h: "R_s x1 \<in> set opts1 \<and> R_o y1 \<in> set opts1"
  then obtain e where e: "parse_relax opts1 = Inl e"
    using relax_conflict_rejected by blast
  then show "\<exists>e. parse_args L (RelaxCmd opts1) = Inl e" by simp
  from e have m: "main X L (RelaxCmd opts1) st1 =
      (SystemExit (exit_status e), \<lparr>world = world st1, trace = trace st1 @ [stop_event e]\<rparr>)"
    by (simp add: main_def)
  from parse_relax_stop[OF e] m
  show "(\<exists>msg. main X L (RelaxCmd opts1) st1 =
               (SystemExit 2, \<lparr>world = world st1, trace = trace st1 @ [PrintUsage msg]\<rparr>)) \<or>
       (R_h \<in> set opts1 \<and>
        main X L (RelaxCmd opts1) st1 =
          (SystemExit 0, \<lparr>world = world st1, trace = trace st1 @ [PrintHelp RelaxParser]\<rparr>))"
    by auto
next
  assume "parse_args L (RelaxCmd opts') = Inr (RelaxNS a)"
  then have "parse_relax opts' = Inr a" by (auto split: sum.splits)
  then show "suffix a = None \<or> outfile a = None" by (rule parse_relax_facts(2))
qed

theorem suffix_outfile_conflict_witness:
  "main ex_X ex_lib (RelaxCmd ([R_i [''a.cif''], R_s ''_relax'', R_o ''out.cif''] @ [R_h])) ex_state
     = (SystemExit 2,
        \<lparr>world = 0,
         trace = [PrintUsage ''argument -o/--outfile: not allowed with argument -s/--suffix'']\<rparr>)
   \<and> main ex_X ex_lib (RelaxCmd [R_o ''out.cif'', R_v, R_s ''_relax'']) ex_state
     = (SystemExit 2,
        \<lparr>world = 0,
         trace = [PrintUsage ''argument -s/--suffix: not allowed with argument -o/--outfile'']\<rparr>)
   \<and> parse_args ex_lib (RelaxCmd [R_o ''out.cif'', R_i [''a.cif'']])
     = Inr (RelaxNS \<lparr>infile = Some [''a.cif''], verbose = False, suffix = None,
                     outfile = Some ''out.cif''\<rparr>)"
  using suffix_outfile_conflict [where x = "''_relax''" and y = "''out.cif''"
      and pre = "[R_i [''a.cif''], R_s ''_relax'', R_o ''out.cif'']" and post = "[R_h]"
      and L = ex_lib and X = ex_X and st = ex_state
      and ?x1.0 = "''_relax''" and ?y1.0 = "''out.cif''"
      and ?opts1.0 = "[R_o ''out.cif'', R_v, R_s ''_relax'']" and ?st1.0 = ex_state
      and opts' = "[R_o ''out.cif'', R_i [''a.cif'']]"
      and a = "\<lparr>infile = Some [''a.cif''], verbose = False, suffix = None, outfile = Some ''out.cif''\<rparr>"]
  by (simp add: ex_simps parse_simps)

subsection \<open>C6: required options\<close>

text \<open>
  Claim C6 as it was stated fails when the command line asks for the help:
  \<open>relax -h\<close> has no \<open>-i\<close>, and \<open>md -i a.cif -h\<close> has none of \<open>-t\<close>, \<open>-e\<close>, \<open>-dt\<close>,
  \<open>-n\<close>; for both the parser prints the help and exits with status \<open>0\<close>.
\<close>

theorem help_without_required_counterexample:
  "(\<forall>fs. R_i fs \<notin> set [R_h])
   \<and> main ex_X ex_lib (RelaxCmd [R_h]) ex_state
     = (SystemExit 0, \<lparr>world = 0, trace = [PrintHelp RelaxParser]\<rparr>)
   \<and> (\<forall>x. M_t x \<notin> set [M_i [''a.cif''], M_h])
   \<and> main ex_X ex_lib (MdCmd [M_i [''a.cif''], M_h]) ex_state
     = (SystemExit 0, \<lparr>world = 0, trace = [PrintHelp MdParser]\<rparr>)"
  by (simp add: ex_simps parse_simps)

text \<open>
  Claim C6, as the code has it. A \<open>relax\<close> command line without \<open>-i\<close>, and an \<open>md\<close>
  command line without one of \<open>-i\<close>, \<open>-t\<close>, \<open>-e\<close>, \<open>-dt\<close>, \<open>-n\<close>, never reaches the
  handler: the parser leaves, and no external call is made. Without \<open>-h\<close> on the
  command line the exit status is \<open>2\<close>, after a usage message; with it the status is
  \<open>2\<close> after a usage message or \<open>0\<close> after the help. A command line that the parser
  accepts, the only ones a handler is called for, has all the required options.
\<close>

theorem required_flags_enforced:
  "((\<forall>fs. R_i fs \<notin> set ropts) \<and> R_h \<notin> set ropts \<longrightarrow>
      (\<exists>msg. parse_args L (RelaxCmd ropts) = Inl (UsageError msg) \<and>
             main X L (RelaxCmd ropts) st =
               (SystemExit 2, \<lparr>world = world st, trace = trace st @ [PrintUsage msg]\<rparr>)))
   \<and> (((\<forall>fs. M_i fs \<notin> set mopts) \<or> (\<forall>x. M_t x \<notin> set mopts) \<or> (\<forall>x. M_e x \<notin> set mopts) \<or>
        (\<forall>x. M_dt x \<notin> set mopts) \<or> (\<forall>x. M_n x \<notin> set mopts)) \<and> M_h \<notin> set mopts \<longrightarrow>
      (\<exists>msg. parse_args L (MdCmd mopts) = Inl (UsageError msg) \<and>
             main X L (MdCmd mopts) st =
               (SystemExit 2, \<lparr>world = world st, trace = trace st @ [PrintUsage msg]\<rparr>)))
   \<and> ((\<forall>fs. R_i fs \<notin> set ropts1) \<longrightarrow>
      (\<exists>e. parse_args L (RelaxCmd ropts1) = Inl e) \<and>
      ((\<exists>msg. main X L (RelaxCmd ropts1) st1 =
               (SystemExit 2, \<lparr>world = world st1, trace = trace st1 @ [PrintUsage msg]\<rparr>)) \<or>
       (R_h \<in> set ropts1 \<and>
        main X L (RelaxCmd ropts1) st1 =
          (SystemExit 0, \<lparr>world = world st1, trace = trace st1 @ [PrintHelp RelaxParser]\<rparr>))))
   \<and> ((\<forall>fs. M_i fs \<notin> set mopts1) \<or> (\<forall>x. M_t x \<notin> set mopts1) \<or> (\<forall>x. M_e x \<notin> set mopts1) \<or>
       (\<forall>x. M_dt x \<notin> set mopts1) \<or> (\<forall>x. M_n x \<notin> set mopts1) \<longrightarrow>
      (\<exists>e. parse_args L (MdCmd mopts1) = Inl e) \<and>
      ((\<exists>msg. main X L (MdCmd mopts1) st1 =
               (SystemExit 2, \<lparr>world = world st1, trace = trace st1 @ [PrintUsage msg]\<rparr>)) \<or>
       (M_h \<in> set mopts1 \<and>
        main X L (MdCmd mopts1) st1 =
          (SystemExit 0, \<lparr>world = world st1, trace = trace st1 @ [PrintHelp MdParser]\<rparr>))))
   \<and> (parse_args L (RelaxCmd ropts') = Inr ns \<longrightarrow> (\<exists>fs. R_i fs \<in> set ropts'))
   \<and> (parse_args L (MdCmd mopts') = Inr ns' \<longrightarrow>
        (\<exists>fs. M_i fs \<in> set mopts') \<and> (\<exists>x. M_t x \<in> set mopts') \<and> (\<exists>x. M_e x \<in> set mopts') \<and>
        (\<exists>x. M_dt x \<in> set mopts') \<and> (\<exists>x. M_n x \<in> set mopts'))"
proof (intro conjI impI)
  assume h: "(\<forall>fs. R_i fs \<notin> set ropts) \<and> R_h \<notin> set ropts"
  then obtain e where e: "parse_relax ropts = Inl e"
    using parse_relax_missing by blast
  with parse_relax_stop[OF e] h obtain msg where "parse_relax ropts = Inl (UsageError msg)"
    by blast
  then show "\<exists>msg. parse_args L (RelaxCmd ropts) = Inl (UsageError msg) \<and>
             main X L (RelaxCmd ropts) st =
               (SystemExit 2, \<lparr>world = world st, trace = trace st @ [PrintUsage msg]\<rparr>)"
    by (simp add: main_def)
next
  assume h: "((\<forall>fs. M_i fs \<notin> set mopts) \<or> (\<forall>x. M_t x \<notin> set mopts) \<or> (\<forall>x. M_e x \<notin> set mopts) \<or>
        (\<forall>x. M_dt x \<notin> set mopts) \<or> (\<forall>x. M_n x \<notin> set mopts)) \<and> M_h \<notin> set mopts"
  then obtain e where e: "parse_md L mopts = Inl e"
    using parse_md_missing[of mopts L] by blast
  with parse_md_stop[OF e] h obtain msg where "parse_md L mopts = Inl (UsageError msg)"
    by blast
  then show "\<exists>msg. parse_args L (MdCmd mopts) = Inl (UsageError msg) \<and>
             main X L (MdCmd mopts) st =
               (SystemExit 2, \<lparr>world = world st, trace = trace st @ [PrintUsage msg]\<rparr>)"
    by (simp add: main_def)
next
  assume "\<forall>fs. R_i fs \<notin> set ropts1"
  then obtain e where e: "parse_relax ropts1 = Inl e"
    using parse_relax_missing by blast
  then show "\<exists>e. parse_args L (RelaxCmd ropts1) = Inl e" by simp
  from e have m: "main X L (RelaxCmd ropts1) st1 =
      (SystemExit (exit_status e), \<lparr>world = world st1, trace = trace st1 @ [stop_event e]\<rparr>)"
    by (simp add: main_def)
  from parse_relax_stop[OF e] m
  show "(\<exists>msg. main X L (RelaxCmd ropts1) st1 =
               (SystemExit 2, \<lparr>world = world st1, trace = trace st1 @ [PrintUsage msg]\<rparr>)) \<or>
       (R_h \<in> set ropts1 \<and>
        main X L (RelaxCmd ropts1) st1 =
          (SystemExit 0, \<lparr>world = world st1, trace = trace st1 @ [PrintHelp RelaxParser]\<rparr>))"
    by auto
next
  assume "(\<forall>fs. M_i fs \<notin> set mopts1) \<or> (\<forall>x. M_t x \<notin> set mopts1) \<or> (\<forall>x. M_e x \<notin> set mopts1) \<or>
       (\<forall>x. M_dt x \<notin> set mopts1) \<or> (\<forall>x. M_n x \<notin> set mopts1)"
  then obtain e where e: "parse_md L mopts1 = Inl e"
    using parse_md_missing[of mopts1 L] by blast
  then show "\<exists>e. parse_args L (MdCmd mopts1) = Inl e" by simp
  from e have m: "main X L (MdCmd mopts1) st1 =
      (SystemExit (exit_status e), \<lparr>world = world st1, trace = trace st1 @ [stop_event e]\<rparr>)"
    by (simp add: main_def)
  from parse_md_stop[OF e] m
  show "(\<exists>msg. main X L (MdCmd mopts1) st1 =
               (SystemExit 2, \<lparr>world = world st1, trace = trace st1 @ [PrintUsage msg]\<rparr>)) \<or>
       (M_h \<in> set mopts1 \<and>
        main X L (MdCmd mopts1) st1 =
          (SystemExit 0, \<lparr>world = world st1, trace = trace st1 @ [PrintHelp MdParser]\<rparr>))"
    by auto
next
  assume "parse_args L (RelaxCmd ropts') = Inr ns"
  then obtain a where "parse_relax ropts' = Inr a" by (auto split: sum.splits)
  from parse_relax_facts(1)[OF this] show "\<exists>fs. R_i fs \<in> set ropts'" by blast
next
  assume "parse_args L (MdCmd mopts') = Inr ns'"
  then obtain a where p: "parse_md L mopts' = Inr a" by (auto split: sum.splits)
  show "\<exists>fs. M_i fs \<in> set mopts'" using parse_md_facts(1)[OF p] by blast
  show "\<exists>x. M_t x \<in> set mopts'" using parse_md_facts(2)[OF p] by blast
  show "\<exists>x. M_e x \<in> set mopts'" using parse_md_facts(3)[OF p] by blast
  show "\<exists>x. M_dt x \<in> set mopts'" using parse_md_facts(4)[OF p] by blast
  show "\<exists>x. M_n x \<in> set mopts'" using parse_md_facts(5)[OF p] by blast
qed

theorem required_flags_enforced_witness:
  "main ex_X ex_lib (RelaxCmd [R_v, R_s ''_relax'']) ex_state
     = (SystemExit 2,
        \<lparr>world = 0, trace = [PrintUsage ''the following arguments are required: -i/--infile'']\<rparr>)
   \<and> main ex_X ex_lib (MdCmd [M_i [''a.cif''], M_e ''nvt'', M_n ''10'']) ex_state
     = (SystemExit 2,
        \<lparr>world = 0,
         trace = [PrintUsage ''the following arguments are required: -t/--temp, -dt/--timestep'']\<rparr>)
   \<and> main ex_X ex_lib (RelaxCmd [R_v, R_h]) ex_state
     = (SystemExit 0, \<lparr>world = 0, trace = [PrintHelp RelaxParser]\<rparr>)
   \<and> main ex_X ex_lib (MdCmd [M_n ''ten'', M_h]) ex_state
     = (SystemExit 2,
        \<lparr>world = 0,
         trace = [PrintUsage (''argument -n/--nsteps: invalid int value: '' @ [CHR 0x27] @ ''ten'' @ [CHR 0x27])]\<rparr>)
   \<and> parse_args ex_lib (RelaxCmd [R_i [''a.cif'']])
     = Inr (RelaxNS \<lparr>infile = Some [''a.cif''], verbose = False, suffix = None, outfile = None\<rparr>)
   \<and> parse_args ex_lib (MdCmd [M_n ''10'', M_dt ''1.0'', M_e ''npt'', M_t ''300'', M_i [''a.cif'']])
     = Inr (MdNS \<lparr>infile = Some [''a.cif''], verbose = False, temp = Some ''300'', ensemble = ''npt'',
          timestep = ''1.0'', trajectory = ''md.traj'', logfile = ''md.log'', loginterval = 100,
          nsteps = 10\<rparr>)"
  using required_flags_enforced [where ropts = "[R_v, R_s ''_relax'']" and L = ex_lib and X = ex_X
      and st = ex_state and mopts = "[M_i [''a.cif''], M_e ''nvt'', M_n ''10'']"
      and ?ropts1.0 = "[R_v, R_h]" and ?mopts1.0 = "[M_n ''ten'', M_h]" and ?st1.0 = ex_state
      and ropts' = "[R_i [''a.cif'']]"
      and ns = "RelaxNS \<lparr>infile = Some [''a.cif''], verbose = False, suffix = None, outfile = None\<rparr>"
      and mopts' = "[M_n ''10'', M_dt ''1.0'', M_e ''npt'', M_t ''300'', M_i [''a.cif'']]"
      and ns' = "MdNS \<lparr>infile = Some [''a.cif''], verbose = False, temp = Some ''300'', ensemble = ''npt'',
          timestep = ''1.0'', trajectory = ''md.traj'', logfile = ''md.log'', loginterval = 100,
          nsteps = 10\<rparr>"]
  by (simp add: ex_simps parse_simps)

subsection \<open>C7: exceptions propagate\<close>

text \<open>
  Claim C7. A run of a handler only appends to the trace. If it raises \<open>e\<close>, the last
  event is the external call that raised \<open>e\<close> and no earlier external call raised: the
  exception is neither caught, retried nor replaced, and nothing is done after it. In
  particular, when the loop body raises on one file, the handler raises the same
  exception in the state the body left, whatever files follow in the list, and \<open>main\<close>
  lets the exception of the handler through.
\<close>

theorem errors_propagate:
  "(infile a = Some fns \<and> relax_structure X a st = (res, st') \<longrightarrow>
      trace st' = trace st @ new_events st st' \<and> stops_at_failure (new_events st st') res)
   \<and> (infile b = Some fns' \<and> run_md X b t = (res', t') \<longrightarrow>
      trace t' = trace t @ new_events t t' \<and> stops_at_failure (new_events t t') res')
   \<and> (infile a1 = Some (pre @ fn # rest) \<and> for_each (relax_file X a1) pre s = (Inr (), s1) \<and>
       relax_file X a1 fn s1 = (Inl e, s2) \<longrightarrow> relax_structure X a1 s = (Inl e, s2))
   \<and> (infile b1 = Some (pre' @ fn' # rest') \<and> for_each (md_file X b1) pre' u = (Inr (), u1) \<and>
       md_file X b1 fn' u1 = (Inl e', u2) \<longrightarrow> run_md X b1 u = (Inl e', u2))
   \<and> (parse_args L av = Inr (RelaxNS a2) \<and> relax_structure X a2 s3 = (Inl e2, s4) \<longrightarrow>
       main X L av s3 = (Uncaught e2, s4))
   \<and> (parse_args L av' = Inr (MdNS b2) \<and> run_md X b2 u3 = (Inl e3, u4) \<longrightarrow>
       main X L av' u3 = (Uncaught e3, u4))"
proof (intro conjI impI)
  assume h: "infile a = Some fns \<and> relax_structure X a st = (res, st')"
  then have "propagates (relax_structure X a)" by (simp add: propagates_relax_structure)
  with h obtain evs where "trace st' = trace st @ evs" "stops_at_failure evs res"
    by (auto elim: propagatesD)
  then show "trace st' = trace st @ new_events st st'" "stops_at_failure (new_events st st') res"
    by (simp_all add: new_events_append)
next
  assume h: "infile b = Some fns' \<and> run_md X b t = (res', t')"
  then have "propagates (run_md X b)" by (simp add: propagates_run_md)
  with h obtain evs where "trace t' = trace t @ evs" "stops_at_failure evs res'"
    by (auto elim: propagatesD)
  then show "trace t' = trace t @ new_events t t'" "stops_at_failure (new_events t t') res'"
    by (simp_all add: new_events_append)
next
  assume "infile a1 = Some (pre @ fn # rest) \<and> for_each (relax_file X a1) pre s = (Inr (), s1) \<and>
       relax_file X a1 fn s1 = (Inl e, s2)"
  then show "relax_structure X a1 s = (Inl e, s2)"
    by (simp add: relax_structure_def bind_prog_def for_each_stops)
next
  assume "infile b1 = Some (pre' @ fn' # rest') \<and> for_each (md_file X b1) pre' u = (Inr (), u1) \<and>
       md_file X b1 fn' u1 = (Inl e', u2)"
  then show "run_md X b1 u = (Inl e', u2)"
    by (simp add: run_md_def bind_prog_def for_each_stops)
next
  assume "parse_args L av = Inr (RelaxNS a2) \<and> relax_structure X a2 s3 = (Inl e2, s4)"
  then show "main X L av s3 = (Uncaught e2, s4)" by (simp add: main_def finish_def)
next
  assume "parse_args L av' = Inr (MdNS b2) \<and> run_md X b2 u3 = (Inl e3, u4)"
  then show "main X L av' u3 = (Uncaught e3, u4)" by (simp add: main_def finish_def)
qed

theorem errors_propagate_witness:
  "relax_structure ex_X
      \<lparr>infile = Some [''a.cif'', ''missing.cif'', ''c.cif''], verbose = False, suffix = None,
        outfile = Some ''out.cif''\<rparr> ex_state
   = (Inl (ExtError ''FileNotFoundError''),
      \<lparr>world = 5,
       trace = [Call (FromFile ''a.cif'') (Inr ''s:a.cif''),
                Call RelaxerNew (Inr ''relaxer''),
                Call (Relax ''relaxer'' ''s:a.cif'') (Inr ''relaxed:s:a.cif''),
                Call (GetItem ''relaxed:s:a.cif'' ''final_structure'')
                  (Inr ''final:relaxed:s:a.cif''),
                Call (ToFile ''final:relaxed:s:a.cif'' ''out.cif'') (Inr ''None''),
                Call (PrintText ''Structure written to out.cif!'') (Inr ''None''),
                Call (FromFile ''missing.cif'') (Inl (ExtError ''FileNotFoundError''))]\<rparr>)
   \<and> run_md ex_X
      \<lparr>infile = Some [''a.cif'', ''missing.cif'', ''c.cif''], verbose = False, temp = Some ''300'',
        ensemble = ''nvt'', timestep = ''1.0'', trajectory = ''md.traj'', logfile = ''md.log'',
        loginterval = 100, nsteps = 10\<rparr> ex_state
   = (Inl (ExtError ''FileNotFoundError''),
      \<lparr>world = 3,
       trace = [Call (FromFile ''a.cif'') (Inr ''s:a.cif''),
                Call (MDNew \<lparr>kw_atoms = ''s:a.cif'', kw_temperature = Some ''300'',
                       kw_ensemble = ''nvt'', kw_timestep = ''1.0'', kw_trajectory = ''md.traj'',
                       kw_logfile = ''md.log'', kw_loginterval = 100\<rparr>) (Inr ''md:s:a.cif''),
                Call (MDRun ''md:s:a.cif'' 10) (Inr ''None''),
                Call (FromFile ''missing.cif'') (Inl (ExtError ''FileNotFoundError''))]\<rparr>)
   \<and> main ex_X ex_lib (RelaxCmd [R_i [''missing.cif'', ''c.cif'']]) ex_state
   = (Uncaught (ExtError ''FileNotFoundError''),
      \<lparr>world = 0,
       trace = [Call (FromFile ''missing.cif'') (Inl (ExtError ''FileNotFoundError''))]\<rparr>)
   \<and> main ex_X ex_lib
        (MdCmd [M_i [''missing.cif''], M_t ''300'', M_e ''nvt'', M_dt ''1.0'', M_n ''10'']) ex_state
   = (Uncaught (ExtError ''FileNotFoundError''),
      \<lparr>world = 0,
       trace = [Call (FromFile ''missing.cif'') (Inl (ExtError ''FileNotFoundError''))]\<rparr>)"
  using errors_propagate [of
      "\<lparr>infile = Some [''a.cif'', ''missing.cif'', ''c.cif''], verbose = False, suffix = None,
        outfile = Some ''out.cif''\<rparr>"
      "[''a.cif'', ''missing.cif'', ''c.cif'']" ex_X ex_state
      "Inl (ExtError ''FileNotFoundError'')"
      "snd (relax_structure ex_X
      \<lparr>infile = Some [''a.cif'', ''missing.cif'', ''c.cif''], verbose = False, suffix = None,
        outfile = Some ''out.cif''\<rparr> ex_state)"
      "\<lparr>infile = Some [''a.cif'', ''missing.cif'', ''c.cif''], verbose = False, temp = Some ''300'',
        ensemble = ''nvt'', timestep = ''1.0'', trajectory = ''md.traj'', logfile = ''md.log'',
        loginterval = 100, nsteps = 10\<rparr>"
      "[''a.cif'', ''missing.cif'', ''c.cif'']" ex_state
      "Inl (ExtError ''FileNotFoundError'')"
      "snd (run_md ex_X
      \<lparr>infile = Some [''a.cif'', ''missing.cif'', ''c.cif''], verbose = False, temp = Some ''300'',
        ensemble = ''nvt'', timestep = ''1.0'', trajectory = ''md.traj'', logfile = ''md.log'',
        loginterval = 100, nsteps = 10\<rparr> ex_state)"
      "\<lparr>infile = Some [''a.cif'', ''missing.cif'', ''c.cif''], verbose = False, suffix = None,
        outfile = Some ''out.cif''\<rparr>"
      "[''a.cif'']" "''missing.cif''" "[''c.cif'']" ex_state
      "snd (for_each (relax_file ex_X
      \<lparr>infile = Some [''a.cif'', ''missing.cif'', ''c.cif''], verbose = False, suffix = None,
        outfile = Some ''out.cif''\<rparr>) [''a.cif''] ex_state)"
      "ExtError ''FileNotFoundError''"
      "snd (relax_structure ex_X
      \<lparr>infile = Some [''a.cif'', ''missing.cif'', ''c.cif''], verbose = False, suffix = None,
        outfile = Some ''out.cif''\<rparr> ex_state)"
      "\<lparr>infile = Some [''a.cif'', ''missing.cif'', ''c.cif''], verbose = False, temp = Some ''300'',
        ensemble = ''nvt'', timestep = ''1.0'', trajectory = ''md.traj'', logfile = ''md.log'',
        loginterval = 100, nsteps = 10\<rparr>"
      "[''a.cif'']" "''missing.cif''" "[''c.cif'']" ex_state
      "snd (for_each (md_file ex_X
      \<lparr>infile = Some [''a.cif'', ''missing.cif'', ''c.cif''], verbose = False, temp = Some ''300'',
        ensemble = ''nvt'', timestep = ''1.0'', trajectory = ''md.traj'', logfile = ''md.log'',
        loginterval = 100, nsteps = 10\<rparr>) [''a.cif''] ex_state)"
      "ExtError ''FileNotFoundError''"
      "snd (run_md ex_X
      \<lparr>infile = Some [''a.cif'', ''missing.cif'', ''c.cif''], verbose = False, temp = Some ''300'',
        ensemble = ''nvt'', timestep = ''1.0'', trajectory = ''md.traj'', logfile = ''md.log'',
        loginterval = 100, nsteps = 10\<rparr> ex_state)"
      ex_lib "RelaxCmd [R_i [''missing.cif'', ''c.cif'']]"
      "\<lparr>infile = Some [''missing.cif'', ''c.cif''], verbose = False, suffix = None, outfile = None\<rparr>"
      ex_state "ExtError ''FileNotFoundError''"
      "snd (main ex_X ex_lib (RelaxCmd [R_i [''missing.cif'', ''c.cif'']]) ex_state)"
      "MdCmd [M_i [''missing.cif''], M_t ''300'', M_e ''nvt'', M_dt ''1.0'', M_n ''10'']"
      "\<lparr>infile = Some [''missing.cif''], verbose = False, temp = Some ''300'',
        ensemble = ''nvt'', timestep = ''1.0'', trajectory = ''md.traj'', logfile = ''md.log'',
        loginterval = 100, nsteps = 10\<rparr>"
      ex_state "ExtError ''FileNotFoundError''"
      "snd (main ex_X ex_lib
        (MdCmd [M_i [''missing.cif''], M_t ''300'', M_e ''nvt'', M_dt ''1.0'', M_n ''10'']) ex_state)"]
  by (simp add: ex_simps parse_simps run_simps finish_def)

subsection \<open>C8: one driver per file, run once\<close>



subsection \<open>C9: one output path for all inputs\<close>



subsection \<open>C10: verbose changes prints only\<close>

text \<open>
  Claim C10 as it was stated fails when a status print raises, as a print to a closed
  standard output does. In \<open>ex_X_pipe\<close> the silent run of \<open>relax -i a.cif -s _relax\<close>
  writes \<open>a_relax.cif\<close> before its first print raises, and the verbose run raises at
  the status print that follows the load, before anything is written: the two runs
  differ in \<open>verbose\<close> only, and one writes a file that the other does not. For
  \<open>md\<close> the silent run builds and runs the driver and returns, and the verbose run
  raises before the driver is built.
\<close>

theorem failing_print_counterexample:
  "relax_structure ex_X_pipe
      \<lparr>infile = Some [''a.cif''], verbose = False, suffix = Some ''_relax'', outfile = None\<rparr>
      ex_state
   = (Inl (ExtError ''BrokenPipeError''),
      \<lparr>world = 5,
       trace =
         [Call (FromFile ''a.cif'') (Inr ''s:a.cif''),
          Call RelaxerNew (Inr ''relaxer''),
          Call (Relax ''relaxer'' ''s:a.cif'') (Inr ''relaxed:s:a.cif''),
          Call (GetItem ''relaxed:s:a.cif'' ''final_structure'') (Inr ''final:relaxed:s:a.cif''),
          Call (ToFile ''final:relaxed:s:a.cif'' ''a_relax.cif'') (Inr ''None''),
          Call (PrintText ''Structure written to a_relax.cif!'')
            (Inl (ExtError ''BrokenPipeError''))]\<rparr>)
   \<and> relax_structure ex_X_pipe
      \<lparr>infile = Some [''a.cif''], verbose = True, suffix = Some ''_relax'', outfile = None\<rparr>
      ex_state
   = (Inl (ExtError ''BrokenPipeError''),
      \<lparr>world = 1,
       trace =
         [Call (FromFile ''a.cif'') (Inr ''s:a.cif''),
          Call (PrintText ''Starting structure'') (Inl (ExtError ''BrokenPipeError''))]\<rparr>)
   \<and> writes_of (trace (snd (relax_structure ex_X_pipe
      \<lparr>infile = Some [''a.cif''], verbose = False, suffix = Some ''_relax'', outfile = None\<rparr>
      ex_state))) = [(''final:relaxed:s:a.cif'', ''a_relax.cif'')]
   \<and> writes_of (trace (snd (relax_structure ex_X_pipe
      \<lparr>infile = Some [''a.cif''], verbose = True, suffix = Some ''_relax'', outfile = None\<rparr>
      ex_state))) = []
   \<and> run_md ex_X_pipe
      \<lparr>infile = Some [''a.cif''], verbose = False, temp = Some ''300'', ensemble = ''nvt'',
        timestep = ''1.0'', trajectory = ''md.traj'', logfile = ''md.log'', loginterval = 100,
        nsteps = 10\<rparr> ex_state
   = (Inr 0,
      \<lparr>world = 3,
       trace =
         [Call (FromFile ''a.cif'') (Inr ''s:a.cif''),
          Call (MDNew \<lparr>kw_atoms = ''s:a.cif'', kw_temperature = Some ''300'',
                       kw_ensemble = ''nvt'', kw_timestep = ''1.0'', kw_trajectory = ''md.traj'',
                       kw_logfile = ''md.log'', kw_loginterval = 100\<rparr>) (Inr ''md:s:a.cif''),
          Call (MDRun ''md:s:a.cif'' 10) (Inr ''None'')]\<rparr>)
   \<and> run_md ex_X_pipe
      \<lparr>infile = Some [''a.cif''], verbose = True, temp = Some ''300'', ensemble = ''nvt'',
        timestep = ''1.0'', trajectory = ''md.traj'', logfile = ''md.log'', loginterval = 100,
        nsteps = 10\<rparr> ex_state
   = (Inl (ExtError ''BrokenPipeError''),
      \<lparr>world = 1,
       trace =
         [Call (FromFile ''a.cif'') (Inr ''s:a.cif''),
          Call (PrintText ''Starting structure'') (Inl (ExtError ''BrokenPipeError''))]\<rparr>)"
  by (simp add: ex_simps run_simps writes_of_def map_filter_def)

text \<open>
  Claim C10, as the code has it. In an environment where a print always returns and
  changes nothing else (\<open>silent_prints\<close>), two runs of a handler from the same state
  with arguments that differ in \<open>verbose\<close> only end with the same result and the same
  world, and made the same external calls other than prints, with the same arguments
  and results, in the same order: the same files written with the same structures, the
  same drivers built with the same parameters and run for the same steps. The trace of
  the verbose run is the trace of the silent one with prints inserted.
\<close>

theorem verbose_does_not_interfere:
  assumes "silent_prints X"
  shows "fst (relax_structure X (a\<lparr>verbose := v\<rparr>) st) = fst (relax_structure X (a\<lparr>verbose := v'\<rparr>) st)
   \<and> world (snd (relax_structure X (a\<lparr>verbose := v\<rparr>) st)) =
       world (snd (relax_structure X (a\<lparr>verbose := v'\<rparr>) st))
   \<and> calls_of (trace (snd (relax_structure X (a\<lparr>verbose := v\<rparr>) st))) =
       calls_of (trace (snd (relax_structure X (a\<lparr>verbose := v'\<rparr>) st)))
   \<and> adds_prints_only (trace (snd (relax_structure X (a\<lparr>verbose := False\<rparr>) st)))
       (trace (snd (relax_structure X (a\<lparr>verbose := True\<rparr>) st)))
   \<and> fst (run_md X (b\<lparr>verbose := v\<rparr>) st) = fst (run_md X (b\<lparr>verbose := v'\<rparr>) st)
   \<and> world (snd (run_md X (b\<lparr>verbose := v\<rparr>) st)) =
       world (snd (run_md X (b\<lparr>verbose := v'\<rparr>) st))
   \<and> calls_of (trace (snd (run_md X (b\<lparr>verbose := v\<rparr>) st))) =
       calls_of (trace (snd (run_md X (b\<lparr>verbose := v'\<rparr>) st)))
   \<and> adds_prints_only (trace (snd (run_md X (b\<lparr>verbose := False\<rparr>) st)))
       (trace (snd (run_md X (b\<lparr>verbose := True\<rparr>) st)))"
proof -
  note rq = relax_structure_quieter[OF assms] and mq = run_md_quieter[OF assms]
  have r: "fst (relax_structure X (a\<lparr>verbose := v\<rparr>) st) = fst (relax_structure X (a\<lparr>verbose := v'\<rparr>) st)"
    using rq(1)[of a st v] rq(1)[of a st v'] by simp
  have m: "fst (run_md X (b\<lparr>verbose := v\<rparr>) st) = fst (run_md X (b\<lparr>verbose := v'\<rparr>) st)"
    using mq(1)[of b st v] mq(1)[of b st v'] by simp
  show ?thesis
    using r m quieter_calls[OF rq(2)[of a st v]]
      quieter_calls[OF rq(2)[of a st v']]
      quieter_calls[OF mq(2)[of b st v]]
      quieter_calls[OF mq(2)[of b st v']]
      rq(2)[of a st True] mq(2)[of b st True]
    by (simp add: quieter_def)
qed

theorem verbose_does_not_interfere_witness:
  "silent_prints ex_X
   \<and> trace (snd (run_md ex_X
      \<lparr>infile = Some [''a.cif''], verbose = False, temp = Some ''300'', ensemble = ''nvt'',
        timestep = ''1.0'', trajectory = ''md.traj'', logfile = ''md.log'', loginterval = 100,
        nsteps = 10\<rparr> ex_state))
   = [Call (FromFile ''a.cif'') (Inr ''s:a.cif''),
      Call (MDNew \<lparr>kw_atoms = ''s:a.cif'', kw_temperature = Some ''300'', kw_ensemble = ''nvt'',
                   kw_timestep = ''1.0'', kw_trajectory = ''md.traj'', kw_logfile = ''md.log'',
                   kw_loginterval = 100\<rparr>) (Inr ''md:s:a.cif''),
      Call (MDRun ''md:s:a.cif'' 10) (Inr ''None'')]
   \<and> trace (snd (run_md ex_X
      \<lparr>infile = Some [''a.cif''], verbose = True, temp = Some ''300'', ensemble = ''nvt'',
        timestep = ''1.0'', trajectory = ''md.traj'', logfile = ''md.log'', loginterval = 100,
        nsteps = 10\<rparr> ex_state))
   = [Call (FromFile ''a.cif'') (Inr ''s:a.cif''),
      Call (PrintText ''Starting structure'') (Inr ''None''),
      Call (PrintObj ''s:a.cif'') (Inr ''None''),
      Call (PrintText ''Running MD...'') (Inr ''None''),
      Call (MDNew \<lparr>kw_atoms = ''s:a.cif'', kw_temperature = Some ''300'', kw_ensemble = ''nvt'',
                   kw_timestep = ''1.0'', kw_trajectory = ''md.traj'', kw_logfile = ''md.log'',
                   kw_loginterval = 100\<rparr>) (Inr ''md:s:a.cif''),
      Call (MDRun ''md:s:a.cif'' 10) (Inr ''None'')]
   \<and> calls_of (trace (snd (relax_structure ex_X
      \<lparr>infile = Some [''a.cif''], verbose = True, suffix = Some ''_relax'', outfile = None\<rparr>
      ex_state)))
   = [Call (FromFile ''a.cif'') (Inr ''s:a.cif''),
      Call RelaxerNew (Inr ''relaxer''),
      Call (Relax ''relaxer'' ''s:a.cif'') (Inr ''relaxed:s:a.cif''),
      Call (GetItem ''relaxed:s:a.cif'' ''final_structure'') (Inr ''final:relaxed:s:a.cif''),
      Call (ToFile ''final:relaxed:s:a.cif'' ''a_relax.cif'') (Inr ''None'')]"
  using verbose_does_not_interfere [where X = ex_X and st = ex_state and v = True and v' = False
      and a = "\<lparr>infile = Some [''a.cif''], verbose = False, suffix = Some ''_relax'', outfile = None\<rparr>"
      and b = "\<lparr>infile = Some [''a.cif''], verbose = False, temp = Some ''300'', ensemble = ''nvt'',
        timestep = ''1.0'', trajectory = ''md.traj'', logfile = ''md.log'', loginterval = 100,
        nsteps = 10\<rparr>"]
  by (simp add: ex_simps run_simps calls_of_def silent_prints_def)

end
